theory Spec2Isabelle
  imports Complex_Main "HOL-Library.Sublist" "HOL-Library.Word"
begin

section \<open>Strings and values of the runtime\<close>

text \<open>
  A JavaScript string is a sequence of UTF-16 code units: a list of 16-bit words, lone
  surrogates included. Every string operation below works code unit by code unit, as
  the runtime does; \<open>encodeURIComponent\<close> reads code points and raises on a lone
  surrogate. \<open>js\<close> writes a string literal of the source with the characters of
  this theory, each standing for the code unit of the same number.
\<close>

type_synonym code_unit = "16 word"

type_synonym jstring = "code_unit list"

definition unit_of :: "char \<Rightarrow> code_unit" where
  "unit_of c = of_nat (of_char c)"

definition js :: "string \<Rightarrow> jstring" where
  "js s = map unit_of s"

subsection \<open>Values\<close>

text \<open>
  The values an argument object can hold: the JSON values, which is what a caller can
  send, and \<^verbatim>\<open>undefined\<close>. A number is finite and is written as the rational it
  is. Arrays and objects are there because a caller may send them, although no
  validator built below lets one through.
\<close>

datatype jsval =
    JUndefined
  | JNull
  | JBool bool
  | JNum rat
  | JStr jstring
  | JArray "jsval list"
  | JObject "(jstring \<times> jsval) list"

definition digit_char :: "nat \<Rightarrow> code_unit" where
  "digit_char n = js ''0123456789'' ! (n mod 10)"

fun decimal :: "nat \<Rightarrow> jstring" where
  "decimal n = (if n < 10 then [digit_char n] else decimal (n div 10) @ [digit_char n])"

declare decimal.simps [simp del]

definition number_to_string :: "int \<Rightarrow> jstring" where
  "number_to_string i = (if i < 0 then unit_of CHR ''-'' # decimal (nat (- i)) else decimal (nat i))"

fun join_comma :: "jstring list \<Rightarrow> jstring" where
  "join_comma [] = []"
| "join_comma [x] = x"
| "join_comma (x # y # ys) = x @ js '','' @ join_comma (y # ys)"

definition is_integer :: "rat \<Rightarrow> bool" where
  "is_integer q \<longleftrightarrow> q = of_int \<lfloor>q\<rfloor>"

subsection \<open>Objects as property lists\<close>

text \<open>
  An object is the list of its own properties in property order; a key occurs once.
  \<open>obj_get\<close> is \<^verbatim>\<open>o[k]\<close> (\<open>None\<close> for a missing property), \<open>obj_set\<close> is
  \<^verbatim>\<open>o[k] = v\<close> (an existing property keeps its place, a new one goes last) and
  \<open>obj_delete\<close> is \<^verbatim>\<open>delete o[k]\<close>.
\<close>

type_synonym 'a obj = "(jstring \<times> 'a) list"

definition obj_get :: "'a obj \<Rightarrow> jstring \<Rightarrow> 'a option" where
  "obj_get ob k = map_of ob k"

definition obj_has :: "'a obj \<Rightarrow> jstring \<Rightarrow> bool" where
  "obj_has ob k \<longleftrightarrow> k \<in> fst ` set ob"

fun obj_set :: "jstring \<Rightarrow> 'a \<Rightarrow> 'a obj \<Rightarrow> 'a obj" where
  "obj_set k v [] = [(k, v)]"
| "obj_set k v ((k', v') # ps) = (if k' = k then (k, v) # ps else (k', v') # obj_set k v ps)"

definition obj_delete :: "jstring \<Rightarrow> 'a obj \<Rightarrow> 'a obj" where
  "obj_delete k ob = filter (\<lambda>p. fst p \<noteq> k) ob"

subsection \<open>String searching and replacing\<close>

text \<open>
  \<open>index_of pat s\<close> is \<^verbatim>\<open>s.indexOf(pat)\<close>, with \<open>None\<close> for -1;
  \<^verbatim>\<open>s.includes(pat)\<close> and \<^verbatim>\<open>s.startsWith(pat)\<close> follow.
\<close>

fun index_of :: "jstring \<Rightarrow> jstring \<Rightarrow> nat option" where
  "index_of pat [] = (if pat = [] then Some 0 else None)"
| "index_of pat (c # cs) =
     (if prefix pat (c # cs) then Some 0 else map_option Suc (index_of pat cs))"

definition js_includes :: "jstring \<Rightarrow> jstring \<Rightarrow> bool" where
  "js_includes s pat \<longleftrightarrow> index_of pat s \<noteq> None"

definition js_startsWith :: "jstring \<Rightarrow> jstring \<Rightarrow> bool" where
  "js_startsWith s pat \<longleftrightarrow> prefix pat s"

text \<open>
  \<^verbatim>\<open>s.replace(pat, rep)\<close> with a string pattern replaces the first occurrence only,
  and expands the dollar patterns of the replacement text: \<^verbatim>\<open>$$\<close>, \<^verbatim>\<open>$&\<close> (the
  match), \<^verbatim>\<open>$`\<close> (the text before it) and \<^verbatim>\<open>$'\<close> (the text after it). A string
  pattern has no capture groups, so \<^verbatim>\<open>$1\<close> and \<^verbatim>\<open>$<name>\<close> stay as written.
\<close>

fun get_substitution :: "jstring \<Rightarrow> jstring \<Rightarrow> jstring \<Rightarrow> jstring \<Rightarrow> jstring" where
  "get_substitution m b a [] = []"
| "get_substitution m b a [c] = [c]"
| "get_substitution m b a (c # d # rest) =
     (if c = unit_of CHR ''$'' \<and> d = unit_of CHR ''$'' then unit_of CHR ''$'' # get_substitution m b a rest
      else if c = unit_of CHR ''$'' \<and> d = unit_of CHR ''&'' then m @ get_substitution m b a rest
      else if c = unit_of CHR ''$'' \<and> d = unit_of CHR 0x60 then b @ get_substitution m b a rest
      else if c = unit_of CHR ''$'' \<and> d = unit_of CHR 0x27 then a @ get_substitution m b a rest
      else c # get_substitution m b a (d # rest))"

definition js_replace :: "jstring \<Rightarrow> jstring \<Rightarrow> jstring \<Rightarrow> jstring" where
  "js_replace s pat rep =
     (case index_of pat s of
        None \<Rightarrow> s
      | Some i \<Rightarrow>
          (let front = take i s; rest = drop (i + length pat) s
           in front @ get_substitution pat front rest rep @ rest))"

subsection \<open>Percent encoding\<close>

text \<open>
  \<^verbatim>\<open>encodeURIComponent\<close> goes through the string by code points. An unreserved
  character stays. Any other code point becomes the percent-escaped bytes of its UTF-8
  form, in upper-case hexadecimal; a high surrogate and the low surrogate after it are
  one code point. A low surrogate that follows no high one, and a high surrogate that
  no low one follows, make the function raise \<^verbatim>\<open>URIError\<close>: the result \<open>None\<close>.
\<close>

definition uri_unreserved :: "code_unit \<Rightarrow> bool" where
  "uri_unreserved c \<longleftrightarrow>
     c \<in> set (js ''abcdefghijklmnopqrstuvwxyz'') \<or>
     c \<in> set (js ''ABCDEFGHIJKLMNOPQRSTUVWXYZ'') \<or>
     c \<in> set (js ''0123456789'') \<or> c \<in> set (js ''-_.!~*()'') \<or> c = unit_of CHR 0x27"

definition is_high_surrogate :: "code_unit \<Rightarrow> bool" where
  "is_high_surrogate c \<longleftrightarrow> 0xD800 \<le> unat c \<and> unat c \<le> 0xDBFF"

definition is_low_surrogate :: "code_unit \<Rightarrow> bool" where
  "is_low_surrogate c \<longleftrightarrow> 0xDC00 \<le> unat c \<and> unat c \<le> 0xDFFF"

definition pair_code_point :: "code_unit \<Rightarrow> code_unit \<Rightarrow> nat" where
  "pair_code_point hi lo = (unat hi - 0xD800) * 0x400 + (unat lo - 0xDC00) + 0x10000"

definition hex_digit :: "nat \<Rightarrow> code_unit" where
  "hex_digit n = js ''0123456789ABCDEF'' ! (n mod 16)"

definition percent_byte :: "nat \<Rightarrow> jstring" where
  "percent_byte b = [unit_of CHR ''%'', hex_digit (b div 16), hex_digit b]"

definition utf8_bytes :: "nat \<Rightarrow> nat list" where
  "utf8_bytes v =
     (if v < 0x80 then [v]
      else if v < 0x800 then [0xC0 + v div 0x40, 0x80 + v mod 0x40]
      else if v < 0x10000 then
        [0xE0 + v div 0x1000, 0x80 + (v div 0x40) mod 0x40, 0x80 + v mod 0x40]
      else [0xF0 + v div 0x40000, 0x80 + (v div 0x1000) mod 0x40,
            0x80 + (v div 0x40) mod 0x40, 0x80 + v mod 0x40])"

definition percent_encoded :: "nat \<Rightarrow> jstring" where
  "percent_encoded v = concat (map percent_byte (utf8_bytes v))"

fun encodeURIComponent :: "jstring \<Rightarrow> jstring option" where
  "encodeURIComponent [] = Some []"
| "encodeURIComponent [c] =
     (if uri_unreserved c then Some [c]
      else if is_low_surrogate c \<or> is_high_surrogate c then None
      else Some (percent_encoded (unat c)))"
| "encodeURIComponent (c # d # ds) =
     (if uri_unreserved c then map_option (\<lambda>r. c # r) (encodeURIComponent (d # ds))
      else if is_low_surrogate c then None
      else if \<not> is_high_surrogate c then
        map_option (\<lambda>r. percent_encoded (unat c) @ r) (encodeURIComponent (d # ds))
      else if is_low_surrogate d then
        map_option (\<lambda>r. percent_encoded (pair_code_point c d) @ r) (encodeURIComponent ds)
      else None)"

text \<open>
  A string has a lone surrogate when \<^verbatim>\<open>encodeURIComponent\<close> cannot read it as code
  points; \<open>encoded\<close> is the result of the function where it has one, and a code unit
  of a result is \<open>plain\<close>: unreserved, a percent sign or a hexadecimal digit.
\<close>

fun has_lone_surrogate :: "jstring \<Rightarrow> bool" where
  "has_lone_surrogate [] \<longleftrightarrow> False"
| "has_lone_surrogate [c] \<longleftrightarrow> is_low_surrogate c \<or> is_high_surrogate c"
| "has_lone_surrogate (c # d # ds) \<longleftrightarrow>
     (if is_low_surrogate c then True
      else if \<not> is_high_surrogate c then has_lone_surrogate (d # ds)
      else if is_low_surrogate d then has_lone_surrogate ds
      else True)"

definition plain :: "code_unit \<Rightarrow> bool" where
  "plain c \<longleftrightarrow> uri_unreserved c \<or> c \<in> set (js ''%0123456789ABCDEF'')"

definition encoded :: "jstring \<Rightarrow> jstring" where
  "encoded s = (case encodeURIComponent s of None \<Rightarrow> [] | Some r \<Rightarrow> r)"

subsection \<open>The name sanitizer of the swagger-client variant\<close>

text \<open>
  \<^verbatim>\<open>toolName.replace(/[^a-zA-Z0-9_-]/g, "_").substring(0, 64)\<close>: the character class
  of the regular expression, the global replacement (one code unit at a time, the
  expression has no \<open>u\<close> flag), and the truncation.
\<close>

definition name_char :: "code_unit \<Rightarrow> bool" where
  "name_char c \<longleftrightarrow>
     c \<in> set (js ''abcdefghijklmnopqrstuvwxyz'') \<or>
     c \<in> set (js ''ABCDEFGHIJKLMNOPQRSTUVWXYZ'') \<or>
     c \<in> set (js ''0123456789'') \<or> c = unit_of CHR ''_'' \<or> c = unit_of CHR ''-''"

definition replace_invalid :: "jstring \<Rightarrow> jstring" where
  "replace_invalid s = map (\<lambda>c. if name_char c then c else unit_of CHR ''_'') s"

definition substring_0 :: "nat \<Rightarrow> jstring \<Rightarrow> jstring" where
  "substring_0 n s = take n s"

definition sanitize :: "jstring \<Rightarrow> jstring" where
  "sanitize s = substring_0 64 (replace_invalid s)"

text \<open>
  The swagger-client variant names a tool after the operation's identifier, or after
  its tag and key when the identifier is missing or empty, and sanitizes the result.
\<close>

definition js_truthy :: "jstring option \<Rightarrow> bool" where
  "js_truthy x = (case x of None \<Rightarrow> False | Some s \<Rightarrow> s \<noteq> [])"

definition swagger_tool_name :: "jstring \<Rightarrow> jstring \<Rightarrow> jstring option \<Rightarrow> jstring" where
  "swagger_tool_name tagName opId operationId =
     sanitize (case operationId of
                 None \<Rightarrow> tagName @ js ''_'' @ opId
               | Some oid \<Rightarrow> if oid \<noteq> [] then oid else tagName @ js ''_'' @ opId)"

section \<open>Validators\<close>

text \<open>
  The validators the program builds with the zod library: \<^verbatim>\<open>z.string()\<close> with its
  checks, \<^verbatim>\<open>z.number()\<close> with \<^verbatim>\<open>.int()\<close>, \<^verbatim>\<open>z.boolean()\<close>, \<^verbatim>\<open>z.enum\<close>,
  \<^verbatim>\<open>z.literal\<close>, \<^verbatim>\<open>z.union\<close> and \<^verbatim>\<open>.optional()\<close>. The two regular expressions
  are the ones written in the source; what the library takes for a UUID and for a
  datetime with an offset is its own, and is a parameter (\<open>uuid_test\<close>,
  \<open>datetime_offset_test\<close>).
\<close>

datatype js_regex = Date_pattern | Time_pattern

datatype string_check = Uuid | Datetime_offset | Regex js_regex

datatype number_check = Is_int

datatype zod =
    ZString "string_check list"
  | ZNumber "number_check list"
  | ZBoolean
  | ZEnum "jstring list"
  | ZLiteral jstring
  | ZUnion "zod list"
  | ZOptional zod

definition guid_sentinel :: jstring where
  "guid_sentinel = js ''{{$guid}}''"

definition datetime_sentinel :: jstring where
  "datetime_sentinel = js ''{{$datetime iso8601}}''"

definition is_digit :: "code_unit \<Rightarrow> bool" where
  "is_digit c \<longleftrightarrow> c \<in> set (js ''0123456789'')"

text \<open>\<^verbatim>\<open>/^\d{4}-\d{2}-\d{2}$/\<close> and \<^verbatim>\<open>/^\d{2}:\d{2}:\d{2}$/\<close>.\<close>

fun regex_test :: "js_regex \<Rightarrow> jstring \<Rightarrow> bool" where
  "regex_test Date_pattern s \<longleftrightarrow>
     length s = 10 \<and> list_all (\<lambda>i. is_digit (s ! i)) [0, 1, 2, 3, 5, 6, 8, 9] \<and>
     s ! 4 = unit_of CHR ''-'' \<and> s ! 7 = unit_of CHR ''-''"
| "regex_test Time_pattern s \<longleftrightarrow>
     length s = 8 \<and> list_all (\<lambda>i. is_digit (s ! i)) [0, 1, 3, 4, 6, 7] \<and>
     s ! 2 = unit_of CHR '':'' \<and> s ! 5 = unit_of CHR '':''"

datatype error =
    ZodError "(jstring \<times> zod \<times> jsval) list"
  | TypeError jstring
  | URIError jstring
  | Error jstring

datatype fetch_outcome =
    Rejects jstring
  | Responds nat jstring
  | Body_rejects nat jstring

record request =
  req_url :: jstring
  req_method :: jstring
  req_headers :: "jstring obj"
  req_body :: "jsval obj option"

text \<open>
  What the program takes from its runtime and its libraries. \<open>randomUUID rt k\<close> and
  \<open>now_iso rt k\<close> are what \<^verbatim>\<open>crypto.randomUUID()\<close> and
  \<^verbatim>\<open>new Date().toISOString()\<close> return when they are called for the argument \<open>k\<close>;
  \<open>fetch rt req\<close> is how the network answers \<open>req\<close> (a rejection with its message,
  a status and a body, or a status and a body that cannot be read);
  \<open>zod_message\<close> is the message of a \<^verbatim>\<open>ZodError\<close> with the given issues;
  \<open>JSON_parse\<close> is \<open>None\<close> where \<^verbatim>\<open>JSON.parse\<close> throws, \<open>JSON_stringify_2\<close>
  is \<^verbatim>\<open>JSON.stringify(v, null, 2)\<close>, and \<open>Number_toString\<close> is how a number is
  written as a string. The field \<open>req_body\<close> of a request is the
  object handed to \<^verbatim>\<open>JSON.stringify\<close>.
\<close>

record runtime =
  uuid_test :: "jstring \<Rightarrow> bool"
  datetime_offset_test :: "jstring \<Rightarrow> bool"
  zod_message :: "(jstring \<times> zod \<times> jsval) list \<Rightarrow> jstring"
  randomUUID :: "jstring \<Rightarrow> jstring"
  now_iso :: "jstring \<Rightarrow> jstring"
  fetch :: "request \<Rightarrow> fetch_outcome"
  JSON_parse :: "jstring \<Rightarrow> jsval option"
  JSON_stringify_2 :: "jsval \<Rightarrow> jstring"
  Number_toString :: "rat \<Rightarrow> jstring"

text \<open>
  \<^verbatim>\<open>String(value)\<close>. An integral number below \<^verbatim>\<open>2 ** 53\<close> in magnitude is written
  as its decimal numeral; how any other number is written (the shortest digits that
  read back as the same number, with an exponent from \<^verbatim>\<open>1e21\<close> on) is the runtime's
  \<open>Number_toString\<close>.
\<close>

fun js_String :: "runtime \<Rightarrow> jsval \<Rightarrow> jstring" where
  "js_String rt JUndefined = js ''undefined''"
| "js_String rt JNull = js ''null''"
| "js_String rt (JBool b) = (if b then js ''true'' else js ''false'')"
| "js_String rt (JNum q) =
     (if is_integer q \<and> \<bar>q\<bar> < 9007199254740992 then number_to_string \<lfloor>q\<rfloor>
      else Number_toString rt q)"
| "js_String rt (JStr s) = s"
| "js_String rt (JArray xs) =
     join_comma (map (\<lambda>x. if x = JUndefined \<or> x = JNull then [] else js_String rt x) xs)"
| "js_String rt (JObject ps) = js ''[object Object]''"

fun check_ok :: "runtime \<Rightarrow> jstring \<Rightarrow> string_check \<Rightarrow> bool" where
  "check_ok rt s Uuid = uuid_test rt s"
| "check_ok rt s Datetime_offset = datetime_offset_test rt s"
| "check_ok rt s (Regex r) = regex_test r s"

text \<open>
  Whether a validator lets a value through. \<^verbatim>\<open>.int()\<close> asks for an integral number.
\<close>

fun number_check_ok :: "rat \<Rightarrow> number_check \<Rightarrow> bool" where
  "number_check_ok q Is_int = is_integer q"

fun accepts :: "runtime \<Rightarrow> zod \<Rightarrow> jsval \<Rightarrow> bool" where
  "accepts rt (ZString cks) v = (case v of JStr s \<Rightarrow> list_all (check_ok rt s) cks | _ \<Rightarrow> False)"
| "accepts rt (ZNumber cks) v = (case v of JNum q \<Rightarrow> list_all (number_check_ok q) cks | _ \<Rightarrow> False)"
| "accepts rt ZBoolean v = (case v of JBool b \<Rightarrow> True | _ \<Rightarrow> False)"
| "accepts rt (ZEnum vs) v = (case v of JStr s \<Rightarrow> s \<in> set vs | _ \<Rightarrow> False)"
| "accepts rt (ZLiteral l) v = (v = JStr l)"
| "accepts rt (ZUnion zs) v = list_ex (\<lambda>z. accepts rt z v) zs"
| "accepts rt (ZOptional z) v = (v = JUndefined \<or> accepts rt z v)"

text \<open>
  \<^verbatim>\<open>z.object(shape).parse(data)\<close>: every key of the shape is read from the data
  (\<^verbatim>\<open>undefined\<close> when missing) and validated; keys outside the shape are dropped;
  a key is in the result when the data has it or its value is not \<^verbatim>\<open>undefined\<close>.
\<close>

definition field_value :: "jsval obj \<Rightarrow> jstring \<Rightarrow> jsval" where
  "field_value data k = (case obj_get data k of None \<Rightarrow> JUndefined | Some v \<Rightarrow> v)"

definition object_issues :: "runtime \<Rightarrow> zod obj \<Rightarrow> jsval obj \<Rightarrow> (jstring \<times> zod \<times> jsval) list" where
  "object_issues rt shape data =
     map (\<lambda>(k, z). (k, z, field_value data k))
       (filter (\<lambda>(k, z). \<not> accepts rt z (field_value data k)) shape)"

definition object_output :: "zod obj \<Rightarrow> jsval obj \<Rightarrow> jsval obj" where
  "object_output shape data =
     map (\<lambda>(k, z). (k, field_value data k))
       (filter (\<lambda>(k, z). obj_has data k \<or> field_value data k \<noteq> JUndefined) shape)"

definition z_object_parse :: "runtime \<Rightarrow> zod obj \<Rightarrow> jsval obj \<Rightarrow> error + jsval obj" where
  "z_object_parse rt shape data =
     (if object_issues rt shape data = [] then Inr (object_output shape data)
      else Inl (ZodError (object_issues rt shape data)))"

section \<open>The API description\<close>

record parameter =
  p_name :: jstring
  p_in :: jstring
  p_required :: bool
  p_type :: jstring
  p_format :: "jstring option"

record property =
  prop_type :: "jstring option"
  prop_format :: "jstring option"
  prop_ref :: "jstring option"
  prop_enum :: "jstring list option"

record schema_object =
  schema_required :: "jstring list option"
  schema_properties :: "property option obj option"
  schema_enum :: "jstring list option"

type_synonym schemas = "schema_object obj"

text \<open>
  \<open>json_schema_ref\<close> is \<^verbatim>\<open>requestBody.content?.["application/json"]?.schema?.$ref\<close>,
  \<open>None\<close> when a link of the chain is missing; \<open>resp_content\<close> holds the media
  types of a response's \<^verbatim>\<open>content\<close>. An operation without \<^verbatim>\<open>parameters\<close> has the
  empty list, as \<^verbatim>\<open>operation.parameters || []\<close> gives.
\<close>

record request_body =
  json_schema_ref :: "jstring option"

record response =
  resp_content :: "jstring list option"

record operation =
  operationId :: "jstring option"
  parameters :: "parameter list"
  requestBody :: "request_body option"
  responses :: "response obj"

section \<open>From an operation to a tool\<close>

subsection \<open>Validators of parameters and of body fields\<close>

definition getZodSchemaForParameter :: "parameter \<Rightarrow> zod" where
  "getZodSchemaForParameter param =
     (let schema =
            (if p_type param = js ''integer'' then ZNumber [Is_int]
             else if p_type param = js ''number'' then ZNumber []
             else ZString [])
      in if p_required param then schema else ZOptional schema)"

text \<open>
  Reading a property of \<^verbatim>\<open>undefined\<close> raises a \<^verbatim>\<open>TypeError\<close>; the text is the
  engine's.
\<close>

definition cannot_read :: "jstring \<Rightarrow> jstring" where
  "cannot_read p =
     js ''Cannot read properties of undefined (reading '' @ [unit_of CHR 0x27] @ p @ [unit_of CHR 0x27] @ js '')''"

fun split_on :: "code_unit \<Rightarrow> jstring \<Rightarrow> jstring list" where
  "split_on sep [] = [[]]"
| "split_on sep (c # cs) =
     (if c = sep then [] # split_on sep cs
      else (case split_on sep cs of [] \<Rightarrow> [[c]] | x # xs \<Rightarrow> (c # x) # xs))"

text \<open>
  \<^verbatim>\<open>ref.split("/").slice(1)\<close> and its last element; where there is none the lookup
  key is \<^verbatim>\<open>undefined\<close>, read as the property name \<^verbatim>\<open>"undefined"\<close>.
\<close>

definition schema_name_of :: "jstring \<Rightarrow> jstring" where
  "schema_name_of ref =
     (let refPath = drop 1 (split_on (unit_of CHR ''/'') ref)
      in if refPath = [] then js ''undefined'' else last refPath)"

definition resolveSchemaRef :: "jstring option \<Rightarrow> property \<Rightarrow> schemas \<Rightarrow> error + zod" where
  "resolveSchemaRef ref prop schemas =
     (let by_property =
        (case prop_enum prop of
           Some vs \<Rightarrow> ZEnum vs
         | None \<Rightarrow>
            if prop_type prop = Some (js ''integer'') then ZNumber [Is_int]
            else if prop_type prop = Some (js ''string'') then
              (if prop_format prop = Some (js ''uuid'') then
                 ZUnion [ZString [Uuid], ZLiteral guid_sentinel]
               else if prop_format prop = Some (js ''date-time'') \<or> prop_format prop = Some (js ''datetime'') then
                 ZUnion [ZString [Datetime_offset], ZLiteral datetime_sentinel]
               else if prop_format prop = Some (js ''date'') then ZString [Regex Date_pattern]
               else if prop_format prop = Some (js ''time'') then ZString [Regex Time_pattern]
               else ZString [])
            else if prop_type prop = Some (js ''number'') then ZNumber []
            else if prop_type prop = Some (js ''boolean'') then ZBoolean
            else ZString [])
      in case ref of
           None \<Rightarrow> Inr by_property
         | Some r \<Rightarrow>
            if r = [] then Inr by_property
            else (case obj_get schemas (schema_name_of r) of
                    None \<Rightarrow> Inl (TypeError (cannot_read (js ''enum'')))
                  | Some referencedSchema \<Rightarrow>
                     (case schema_enum referencedSchema of
                        Some vs \<Rightarrow> Inr (ZEnum vs)
                      | None \<Rightarrow> Inr by_property)))"

text \<open>
  The parameter loop: only a parameter whose location is \<^verbatim>\<open>"path"\<close> gets a validator.
\<close>

definition path_parameter_schemas :: "parameter list \<Rightarrow> zod obj" where
  "path_parameter_schemas params =
     fold (\<lambda>param paramSchema.
             if p_in param = js ''path''
             then obj_set (p_name param) (getZodSchemaForParameter param) paramSchema
             else paramSchema)
          params []"

text \<open>The loop over the properties of the schema the request body refers to.\<close>

fun add_body_fields ::
  "schemas \<Rightarrow> jstring list option \<Rightarrow> property option obj \<Rightarrow> zod obj \<Rightarrow> error + zod obj" where
  "add_body_fields schemas req [] paramSchema = Inr paramSchema"
| "add_body_fields schemas req ((field, None) # rest) paramSchema =
     add_body_fields schemas req rest paramSchema"
| "add_body_fields schemas req ((field, Some prop) # rest) paramSchema =
     (case resolveSchemaRef (prop_ref prop) prop schemas of
        Inl e \<Rightarrow> Inl e
      | Inr zodSchema \<Rightarrow>
          add_body_fields schemas req rest
            (obj_set field
               (if (case req of None \<Rightarrow> False | Some names \<Rightarrow> field \<in> set names)
                then zodSchema else ZOptional zodSchema)
               paramSchema))"

definition build_param_schema :: "schemas \<Rightarrow> operation \<Rightarrow> error + zod obj" where
  "build_param_schema schemas op =
     (let paramSchema = path_parameter_schemas (parameters op)
      in case requestBody op of
           None \<Rightarrow> Inr paramSchema
         | Some rb \<Rightarrow>
            (case json_schema_ref rb of
               None \<Rightarrow> Inr paramSchema
             | Some r \<Rightarrow>
                if r = [] then Inr paramSchema
                else (case obj_get schemas (schema_name_of r) of
                        None \<Rightarrow> Inl (TypeError (cannot_read (js ''properties'')))
                      | Some referencedSchema \<Rightarrow>
                         (case schema_properties referencedSchema of
                            None \<Rightarrow> Inr paramSchema
                          | Some props \<Rightarrow>
                             add_body_fields schemas (schema_required referencedSchema)
                               props paramSchema))))"

subsection \<open>The tool name\<close>

text \<open>
  \<^verbatim>\<open>operation.operationId || `${method}${path.replace(/[/{}/]/g, "_")}`\<close>: the
  identifier as it is written, unless it is missing or empty.
\<close>

definition path_to_name :: "jstring \<Rightarrow> jstring" where
  "path_to_name path =
     map (\<lambda>c. if c = unit_of CHR ''/'' \<or> c = unit_of CHR ''{'' \<or> c = unit_of CHR ''}'' then unit_of CHR ''_'' else c) path"

definition toolName_of :: "jstring \<Rightarrow> jstring \<Rightarrow> operation \<Rightarrow> jstring" where
  "toolName_of path method op =
     (case operationId op of
        None \<Rightarrow> method @ path_to_name path
      | Some oid \<Rightarrow> if oid \<noteq> [] then oid else method @ path_to_name path)"

subsection \<open>One invocation\<close>

text \<open>The placeholder pass over the entries of the argument object.\<close>

definition resolve_placeholder :: "runtime \<Rightarrow> jstring \<Rightarrow> jsval \<Rightarrow> jsval" where
  "resolve_placeholder rt key v =
     (if v = JStr guid_sentinel then JStr (randomUUID rt key)
      else if v = JStr datetime_sentinel then JStr (now_iso rt key)
      else v)"

definition resolve_placeholders :: "runtime \<Rightarrow> jsval obj \<Rightarrow> jsval obj" where
  "resolve_placeholders rt params = map (\<lambda>(key, v). (key, resolve_placeholder rt key v)) params"

text \<open>The path: the prefix for the Hawksoft family, then one replacement per argument.\<close>

definition segment :: "jstring \<Rightarrow> jstring" where
  "segment key = js ''{'' @ key @ js ''}''"

definition prefix_path :: "jstring \<Rightarrow> jstring" where
  "prefix_path path =
     (if \<not> js_startsWith path (js ''/integrations'') \<and> js_includes path (js ''/hawksoft/'')
      then js ''/integrations'' @ path else path)"

definition uri_malformed :: error where
  "uri_malformed = URIError (js ''URI malformed'')"

definition replace_parameter ::
  "runtime \<Rightarrow> jstring \<Rightarrow> jstring \<times> jsval \<Rightarrow> jstring \<Rightarrow> error + jstring" where
  "replace_parameter rt path entry finalPath =
     (if js_includes path (segment (fst entry))
      then (case encodeURIComponent (js_String rt (snd entry)) of
              None \<Rightarrow> Inl uri_malformed
            | Some component \<Rightarrow> Inr (js_replace finalPath (segment (fst entry)) component))
      else Inr finalPath)"

text \<open>The loop over the entries stops at the first exception.\<close>

fun replace_parameters ::
  "runtime \<Rightarrow> jstring \<Rightarrow> jsval obj \<Rightarrow> jstring \<Rightarrow> error + jstring" where
  "replace_parameters rt path [] finalPath = Inr finalPath"
| "replace_parameters rt path (entry # rest) finalPath =
     (case replace_parameter rt path entry finalPath of
        Inl e \<Rightarrow> Inl e
      | Inr replaced \<Rightarrow> replace_parameters rt path rest replaced)"

definition final_path :: "runtime \<Rightarrow> jstring \<Rightarrow> jsval obj \<Rightarrow> error + jstring" where
  "final_path rt path validatedParams = replace_parameters rt path validatedParams (prefix_path path)"

text \<open>The headers. The entry \<^verbatim>\<open>"200"\<close> of the responses is read without a guard.\<close>

definition accept_header :: "operation \<Rightarrow> error + jstring" where
  "accept_header op =
     (case obj_get (responses op) (js ''200'') of
        None \<Rightarrow> Inl (TypeError (cannot_read (js ''content'')))
      | Some r \<Rightarrow>
          Inr (case resp_content r of
                 None \<Rightarrow> (js ''text/plain'')
               | Some media \<Rightarrow>
                   if (js ''application/json'') \<in> set media then js ''application/json'' else js ''text/plain''))"

definition parameter_headers :: "parameter list \<Rightarrow> jstring \<Rightarrow> jstring obj \<Rightarrow> jstring obj" where
  "parameter_headers params organizationId headers =
     fold (\<lambda>param hs.
             if p_in param = js ''header'' \<and> p_required param \<and> p_name param = js ''X-Org-Id''
             then obj_set (p_name param) organizationId hs else hs)
          params headers"

definition build_headers :: "operation \<Rightarrow> jstring \<Rightarrow> jstring \<Rightarrow> jstring \<Rightarrow> jstring obj" where
  "build_headers op organizationId finalPath accept =
     (let headers =
            parameter_headers (parameters op) organizationId
              [(js ''Content-Type'', js ''application/json''), (js ''Accept'', accept)]
      in if js_includes finalPath (js ''/hawksoft/'')
         then obj_set (js ''X-Org-Id'') organizationId headers else headers)"

text \<open>The body: all validated arguments, \<^verbatim>\<open>ClientNumber\<close> renamed when it is there.\<close>

definition body_params :: "jsval obj \<Rightarrow> jsval obj" where
  "body_params validatedParams =
     (case obj_get validatedParams (js ''ClientNumber'') of
        None \<Rightarrow> validatedParams
      | Some v \<Rightarrow>
          if v \<noteq> JUndefined
          then obj_delete (js ''ClientNumber'') (obj_set (js ''clientNumber'') v validatedParams)
          else validatedParams)"

definition ascii_upper :: "code_unit \<Rightarrow> code_unit" where
  "ascii_upper c =
     (case map_of (zip (js ''abcdefghijklmnopqrstuvwxyz'') (js ''ABCDEFGHIJKLMNOPQRSTUVWXYZ'')) c of
        None \<Rightarrow> c
      | Some u \<Rightarrow> u)"

text \<open>\<^verbatim>\<open>toUpperCase\<close>, on the method names (ASCII letters).\<close>

definition toUpperCase :: "jstring \<Rightarrow> jstring" where
  "toUpperCase s = map ascii_upper s"

text \<open>
  Everything the handler does before it calls \<^verbatim>\<open>fetch\<close>: placeholders, validation,
  path, headers, body. An exception raised on the way is the \<open>Inl\<close> result.
\<close>

definition build_request ::
  "runtime \<Rightarrow> jstring \<Rightarrow> jstring \<Rightarrow> operation \<Rightarrow> jstring \<Rightarrow> jstring \<Rightarrow> zod obj \<Rightarrow> jsval obj
     \<Rightarrow> error + request" where
  "build_request rt path method op baseUrl organizationId paramSchema params =
     (let processedParams = resolve_placeholders rt params
      in case z_object_parse rt paramSchema processedParams of
           Inl e \<Rightarrow> Inl e
         | Inr validatedParams \<Rightarrow>
            (case final_path rt path validatedParams of
               Inl e \<Rightarrow> Inl e
             | Inr finalPath \<Rightarrow>
                (case accept_header op of
                   Inl e \<Rightarrow> Inl e
                 | Inr accept \<Rightarrow>
                    Inr \<lparr> req_url = baseUrl @ finalPath,
                          req_method = toUpperCase method,
                          req_headers = build_headers op organizationId finalPath accept,
                          req_body = (case requestBody op of
                                        None \<Rightarrow> None
                                      | Some rb \<Rightarrow> Some (body_params validatedParams)) \<rparr>)))"

text \<open>The text made of a response body that was read from a 2xx response.\<close>

fun js_join :: "jstring \<Rightarrow> jstring list \<Rightarrow> jstring" where
  "js_join sep [] = []"
| "js_join sep [x] = x"
| "js_join sep (x # y # ys) = x @ sep @ js_join sep (y # ys)"

definition typeof_object :: "jsval \<Rightarrow> bool" where
  "typeof_object v = (case v of JNull \<Rightarrow> True | JArray xs \<Rightarrow> True | JObject ps \<Rightarrow> True | _ \<Rightarrow> False)"

definition response_text :: "runtime \<Rightarrow> jstring \<Rightarrow> jstring" where
  "response_text rt body =
     (case JSON_parse rt body of
        None \<Rightarrow> body
      | Some responseContent \<Rightarrow>
         (case responseContent of
            JArray items \<Rightarrow>
              js_join [unit_of CHR 0x0A, unit_of CHR 0x0A]
                (map (\<lambda>item. if typeof_object item then JSON_stringify_2 rt item else js_String rt item)
                   items)
          | _ \<Rightarrow>
              if typeof_object responseContent then JSON_stringify_2 rt responseContent
              else js_String rt responseContent))"

text \<open>
  The handler: what the caller gets back, and the requests that were handed to
  \<^verbatim>\<open>fetch\<close>. The \<^verbatim>\<open>catch\<close> block turns every exception into a text.
\<close>

record tool_result =
  result_text :: jstring
  issued :: "request list"

definition message :: "runtime \<Rightarrow> error \<Rightarrow> jstring" where
  "message rt e =
     (case e of
        ZodError issues \<Rightarrow> zod_message rt issues
      | TypeError m \<Rightarrow> m
      | URIError m \<Rightarrow> m
      | Error m \<Rightarrow> m)"

definition error_text :: "runtime \<Rightarrow> jstring \<Rightarrow> error \<Rightarrow> jstring" where
  "error_text rt toolName e = js ''Error in '' @ toolName @ js '': '' @ message rt e"

definition res_ok :: "nat \<Rightarrow> bool" where
  "res_ok status \<longleftrightarrow> 200 \<le> status \<and> status \<le> 299"

definition handler ::
  "jstring \<Rightarrow> jstring \<Rightarrow> operation \<Rightarrow> jstring \<Rightarrow> jstring \<Rightarrow> jstring \<Rightarrow> zod obj \<Rightarrow> runtime \<Rightarrow> jsval obj
     \<Rightarrow> tool_result" where
  "handler path method op baseUrl organizationId toolName paramSchema rt params =
     (case build_request rt path method op baseUrl organizationId paramSchema params of
        Inl e \<Rightarrow> \<lparr> result_text = error_text rt toolName e, issued = [] \<rparr>
      | Inr req \<Rightarrow>
         (case fetch rt req of
            Rejects m \<Rightarrow> \<lparr> result_text = error_text rt toolName (Error m), issued = [req] \<rparr>
          | Body_rejects status m \<Rightarrow> \<lparr> result_text = error_text rt toolName (Error m), issued = [req] \<rparr>
          | Responds status body \<Rightarrow>
              if \<not> res_ok status
              then \<lparr> result_text = error_text rt toolName
                              (Error (if body \<noteq> [] then body else js ''HTTP error '' @ decimal status)),
                     issued = [req] \<rparr>
              else \<lparr> result_text = response_text rt body, issued = [req] \<rparr>))"

text \<open>
  \<open>createToolFromEndpoint\<close>: the name, the validators and the handler that are
  registered, or the exception raised while the validators are built.
\<close>

record tool =
  tool_name :: jstring
  tool_schema :: "zod obj"
  tool_handler :: "runtime \<Rightarrow> jsval obj \<Rightarrow> tool_result"

definition createToolFromEndpoint ::
  "schemas \<Rightarrow> jstring \<Rightarrow> jstring \<Rightarrow> operation \<Rightarrow> jstring \<Rightarrow> jstring \<Rightarrow> error + tool" where
  "createToolFromEndpoint schemas path method op baseUrl organizationId =
     (let toolName = toolName_of path method op
      in case build_param_schema schemas op of
           Inl e \<Rightarrow> Inl e
         | Inr paramSchema \<Rightarrow>
            Inr \<lparr> tool_name = toolName,
                  tool_schema = paramSchema,
                  tool_handler = handler path method op baseUrl organizationId toolName paramSchema \<rparr>)"

subsection \<open>The body in the earlier variant\<close>

text \<open>
  The variant that reads \<^verbatim>\<open>v2.json\<close> builds the body from the arguments as they
  come and deletes every key that stands as a segment in the path template.
\<close>

definition body_params_v2 :: "jstring \<Rightarrow> jsval obj \<Rightarrow> jsval obj" where
  "body_params_v2 path params = filter (\<lambda>entry. \<not> js_includes path (segment (fst entry))) params"

section \<open>Path templates\<close>

text \<open>
  A path template read as its pieces: literal text and parameter segments. It is well
  formed when neither the literal text nor a parameter name holds a brace. \<open>render\<close>
  gives the template back as the string the API description holds.
\<close>

datatype piece = Lit jstring | Par jstring

definition brace_free :: "jstring \<Rightarrow> bool" where
  "brace_free s \<longleftrightarrow> unit_of CHR ''{'' \<notin> set s \<and> unit_of CHR ''}'' \<notin> set s"

fun piece_text :: "piece \<Rightarrow> jstring" where
  "piece_text (Lit s) = s"
| "piece_text (Par n) = segment n"

definition render :: "piece list \<Rightarrow> jstring" where
  "render ps = concat (map piece_text ps)"

fun piece_ok :: "piece \<Rightarrow> bool" where
  "piece_ok (Lit s) = brace_free s"
| "piece_ok (Par n) = brace_free n"

definition well_formed :: "piece list \<Rightarrow> bool" where
  "well_formed ps = list_all piece_ok ps"

fun parameters_of :: "piece list \<Rightarrow> jstring list" where
  "parameters_of [] = []"
| "parameters_of (Lit s # ps) = parameters_of ps"
| "parameters_of (Par n # ps) = n # parameters_of ps"

text \<open>
  What a piece becomes once the arguments are filled in: a parameter that has an
  argument becomes the percent-encoded string form of its value, anything else stays.
  \<open>integrations_lead\<close> is what the Hawksoft rule puts in front of the path.
\<close>

fun filled :: "runtime \<Rightarrow> jsval obj \<Rightarrow> piece \<Rightarrow> jstring" where
  "filled rt args (Lit s) = s"
| "filled rt args (Par n) =
     (case obj_get args n of
        None \<Rightarrow> segment n
      | Some v \<Rightarrow> encoded (js_String rt v))"

definition integrations_lead :: "jstring \<Rightarrow> jstring" where
  "integrations_lead path =
     (if \<not> js_startsWith path (js ''/integrations'') \<and> js_includes path (js ''/hawksoft/'')
      then js ''/integrations'' else [])"

text \<open>
  Two views used in the proofs: the replacement of a first occurrence written as a
  recursion over the string, and the same step on the pieces of a template (the first
  segment of the parameter \<open>k\<close> becomes the literal text \<open>rep\<close>).
\<close>

fun replace_first :: "jstring \<Rightarrow> jstring \<Rightarrow> jstring \<Rightarrow> jstring" where
  "replace_first pat rep [] = (if pat = [] then rep else [])"
| "replace_first pat rep (c # cs) =
     (if prefix pat (c # cs) then rep @ drop (length pat) (c # cs)
      else c # replace_first pat rep cs)"

fun fill_first :: "jstring \<Rightarrow> jstring \<Rightarrow> piece list \<Rightarrow> piece list" where
  "fill_first k rep [] = []"
| "fill_first k rep (Lit s # ps) = Lit s # fill_first k rep ps"
| "fill_first k rep (Par n # ps) = (if n = k then Lit rep # ps else Par n # fill_first k rep ps)"

fun fill_piece :: "runtime \<Rightarrow> jsval obj \<Rightarrow> piece \<Rightarrow> piece" where
  "fill_piece rt args (Lit s) = Lit s"
| "fill_piece rt args (Par n) =
     (case obj_get args n of
        None \<Rightarrow> Par n
      | Some v \<Rightarrow> Lit (encoded (js_String rt v)))"

section \<open>An operation without its query parameters\<close>

definition without_query :: "operation \<Rightarrow> operation" where
  "without_query op = op \<lparr> parameters := filter (\<lambda>param. p_in param \<noteq> (js ''query'')) (parameters op) \<rparr>"

section \<open>Sample inputs\<close>

text \<open>
  A runtime for the examples: its two string tests agree with the library on the
  strings the examples use, its number format is right at \<^verbatim>\<open>1e21\<close> and \<^verbatim>\<open>1.5\<close>, the network
  answers every request with status 200.
\<close>

definition sample_runtime :: runtime where
  "sample_runtime =
     \<lparr> uuid_test = (\<lambda>s. s = js ''123e4567-e89b-42d3-a456-426614174000''),
       datetime_offset_test = (\<lambda>s. s = js ''2025-01-01T00:00:00.000Z''),
       zod_message = (\<lambda>issues. (js ''invalid arguments'')),
       randomUUID = (\<lambda>k. (js ''123e4567-e89b-42d3-a456-426614174000'')),
       now_iso = (\<lambda>k. (js ''2025-01-01T00:00:00.000Z'')),
       fetch = (\<lambda>req. Responds 200 (js ''ok'')),
       JSON_parse = (\<lambda>s. None),
       JSON_stringify_2 = (\<lambda>v. []),
       Number_toString = (\<lambda>q. if q = 1000000000000000000000 then js ''1e+21'' else js ''1.5'') \<rparr>"

definition id_parameter :: parameter where
  "id_parameter =
     \<lparr> p_name = js ''id'', p_in = js ''path'', p_required = True, p_type = js ''string'', p_format = None \<rparr>"

definition get_item :: operation where
  "get_item =
     \<lparr> operationId = Some (js ''getItem''), parameters = [id_parameter], requestBody = None,
       responses = [(js ''200'', \<lparr> resp_content = None \<rparr>)] \<rparr>"

definition organization :: jstring where
  "organization = js ''8232f2d1-91f2-4d17-9a7e-756dd5dc7544''"

definition base :: jstring where
  "base = js ''http://localhost:9999''"

text \<open>An operation whose parameters are a path parameter and a query parameter.\<close>

definition q_parameter :: parameter where
  "q_parameter =
     \<lparr> p_name = js ''q'', p_in = js ''query'', p_required = False, p_type = js ''string'', p_format = None \<rparr>"

definition search_item :: operation where
  "search_item = get_item \<lparr> parameters := [id_parameter, q_parameter] \<rparr>"

text \<open>An operation with a request body, and the schema its body refers to.\<close>

definition item_schemas :: schemas where
  "item_schemas =
     [(js ''Item'',
       \<lparr> schema_required = Some [js ''name''],
         schema_properties =
           Some [(js ''name'', Some \<lparr> prop_type = Some (js ''string''), prop_format = None,
                                   prop_ref = None, prop_enum = None \<rparr>)],
         schema_enum = None \<rparr>)]"

definition put_item :: operation where
  "put_item =
     \<lparr> operationId = Some (js ''putItem''), parameters = [id_parameter],
       requestBody = Some \<lparr> json_schema_ref = Some (js ''#/components/schemas/Item'') \<rparr>,
       responses = [(js ''200'', \<lparr> resp_content = Some [js ''application/json''] \<rparr>)] \<rparr>"

text \<open>An operation that declares the response 201 only.\<close>

definition create_item :: operation where
  "create_item =
     \<lparr> operationId = Some (js ''createItem''), parameters = [], requestBody = None,
       responses = [(js ''201'', \<lparr> resp_content = None \<rparr>)] \<rparr>"


section \<open>Literals\<close>

lemma of_char_less_256: "(of_char c :: nat) < 256"
  by (metis of_char_mod_256 mod_less_divisor zero_less_numeral)

lemma unat_unit_of: "unat (unit_of c) = of_char c"
proof -
  have "(of_char c :: nat) < 65536"
    by (rule less_trans [OF of_char_less_256]) simp
  then show ?thesis by (simp add: unit_of_def unat_of_nat)
qed

lemma unit_of_inject [simp]: "unit_of a = unit_of b \<longleftrightarrow> a = b"
  by (metis unat_unit_of of_char_eq_iff)

lemma js_inject [simp]: "js a = js b \<longleftrightarrow> a = b"
  by (simp add: js_def inj_map_eq_map inj_def)

lemma js_Nil: "js [] = []"
  by (simp add: js_def)

lemma js_Cons: "js (c # s) = unit_of c # js s"
  by (simp add: js_def)

lemmas js_simps = js_Nil js_Cons

lemma length_js [simp]: "length (js s) = length s"
  by (simp add: js_def)

lemma js_empty [simp]: "js s = [] \<longleftrightarrow> s = []"
  by (simp add: js_def)

lemma unat_in_js: "c \<in> set (js s) \<Longrightarrow> unat c < 256"
  by (auto simp: js_def unat_unit_of of_char_less_256)

section \<open>Properties of the sanitizer\<close>

lemma name_char_underscore: "name_char (unit_of CHR ''_'')"
  by (simp add: name_char_def)

lemma replace_invalid_valid: "\<forall>c \<in> set (replace_invalid s). name_char c"
  by (auto simp: replace_invalid_def name_char_underscore)

lemma replace_invalid_id: "\<forall>c \<in> set s. name_char c \<Longrightarrow> replace_invalid s = s"
  by (induction s) (auto simp: replace_invalid_def)

lemma sanitize_valid: "\<forall>c \<in> set (sanitize s). name_char c"
  using replace_invalid_valid [of s]
  by (auto simp: sanitize_def substring_0_def dest: in_set_takeD)

lemma sanitize_length: "length (sanitize s) \<le> 64"
  by (simp add: sanitize_def substring_0_def)

lemma sanitize_fixed:
  "\<forall>c \<in> set s. name_char c \<Longrightarrow> length s \<le> 64 \<Longrightarrow> sanitize s = s"
  by (simp add: sanitize_def substring_0_def replace_invalid_id)

text \<open>
  C8. The sanitizer (replace every character outside the class by an underscore, then
  keep the first 64 characters) is idempotent: sanitizing an already sanitized name
  returns it unchanged, for every input string.
\<close>

theorem sanitize_idempotent: "sanitize (sanitize s) = sanitize s"
  by (rule sanitize_fixed) (simp_all add: sanitize_valid sanitize_length)

section \<open>Percent encoding\<close>

text \<open>In this part the literals are read as lists of code units.\<close>

declare js_simps [simp]

lemma hex_digit_in: "hex_digit n \<in> set (js ''0123456789ABCDEF'')"
  unfolding hex_digit_def by (rule nth_mem) simp

lemma percent_byte_chars: "set (percent_byte b) \<subseteq> set (js ''%0123456789ABCDEF'')"
  using hex_digit_in [of "b div 16"] hex_digit_in [of b]
  by (auto simp: percent_byte_def js_simps)

lemma percent_encoded_chars: "set (percent_encoded v) \<subseteq> set (js ''%0123456789ABCDEF'')"
  using percent_byte_chars by (auto simp: percent_encoded_def)

lemma plain_percent_encoded: "c \<in> set (percent_encoded v) \<Longrightarrow> plain c"
  using percent_encoded_chars [of v] by (auto simp: plain_def)

lemma plain_unreserved: "uri_unreserved c \<Longrightarrow> plain c"
  by (simp add: plain_def)

lemma encodeURIComponent_plain:
  "encodeURIComponent s = Some r \<Longrightarrow> \<forall>c \<in> set r. plain c"
proof (induction s arbitrary: r rule: encodeURIComponent.induct)
  case 1
  then show ?case by simp
next
  case (2 c)
  then show ?case
    by (auto intro: plain_unreserved plain_percent_encoded split: if_splits)
next
  case (3 c d ds)
  then show ?case
    by (auto intro: plain_unreserved plain_percent_encoded split: if_splits)
qed

lemma plain_not_special:
  "plain c \<Longrightarrow> c \<noteq> unit_of CHR ''{'' \<and> c \<noteq> unit_of CHR ''}'' \<and> c \<noteq> unit_of CHR ''$''"
  by (auto simp: plain_def uri_unreserved_def js_simps)

lemma encodeURIComponent_brace_free: "encodeURIComponent s = Some r \<Longrightarrow> brace_free r"
  using encodeURIComponent_plain [of s r] plain_not_special
  by (fastforce simp: brace_free_def)

lemma encodeURIComponent_no_dollar: "encodeURIComponent s = Some r \<Longrightarrow> unit_of CHR ''$'' \<notin> set r"
  using encodeURIComponent_plain [of s r] plain_not_special by fastforce

lemma encoded_brace_free: "brace_free (encoded s)"
proof (cases "encodeURIComponent s")
  case None
  then show ?thesis by (simp add: encoded_def brace_free_def)
next
  case (Some r)
  then show ?thesis by (simp add: encoded_def encodeURIComponent_brace_free)
qed

lemma encoded_no_dollar: "unit_of CHR ''$'' \<notin> set (encoded s)"
proof (cases "encodeURIComponent s")
  case None
  then show ?thesis by (simp add: encoded_def)
next
  case (Some r)
  then show ?thesis by (simp add: encoded_def encodeURIComponent_no_dollar)
qed

lemma encoded_Some: "encodeURIComponent s = Some r \<Longrightarrow> encoded s = r"
  by (simp add: encoded_def)

lemma unreserved_not_surrogate:
  "uri_unreserved c \<Longrightarrow> \<not> is_low_surrogate c \<and> \<not> is_high_surrogate c"
proof -
  assume "uri_unreserved c"
  then have "unat c < 256"
    by (auto simp: uri_unreserved_def unat_unit_of of_char_less_256 dest: unat_in_js)
  then show ?thesis by (simp add: is_low_surrogate_def is_high_surrogate_def)
qed

lemma encodeURIComponent_None_iff: "encodeURIComponent s = None \<longleftrightarrow> has_lone_surrogate s"
  by (induction s rule: encodeURIComponent.induct) (auto dest: unreserved_not_surrogate)

section \<open>Replacing a segment in a rendered template\<close>

lemma get_substitution_plain:
  "unit_of CHR ''$'' \<notin> set rep \<Longrightarrow> get_substitution m b a rep = rep"
  by (induction m b a rep rule: get_substitution.induct) auto

lemma js_replace_plain:
  assumes "unit_of CHR ''$'' \<notin> set rep"
  shows "js_replace s pat rep = replace_first pat rep s"
proof (induction s)
  case Nil
  then show ?case by (simp add: js_replace_def get_substitution_plain [OF assms])
next
  case (Cons c cs)
  show ?case
  proof (cases "prefix pat (c # cs)")
    case True
    then show ?thesis by (simp add: js_replace_def get_substitution_plain [OF assms])
  next
    case False
    with Cons show ?thesis
      by (auto simp: js_replace_def Let_def get_substitution_plain [OF assms] split: option.splits)
  qed
qed

lemma not_prefix_hd: "pat \<noteq> [] \<Longrightarrow> hd pat \<noteq> c \<Longrightarrow> \<not> prefix pat (c # cs)"
  by (cases pat) auto

lemma replace_first_skip:
  "pat \<noteq> [] \<Longrightarrow> hd pat \<notin> set s \<Longrightarrow> replace_first pat rep (s @ t) = s @ replace_first pat rep t"
  by (induction s) (auto simp: not_prefix_hd)

lemma index_of_skip:
  "pat \<noteq> [] \<Longrightarrow> hd pat \<notin> set s \<Longrightarrow> index_of pat (s @ t) = None \<longleftrightarrow> index_of pat t = None"
  by (induction s) (auto simp: not_prefix_hd)

lemma js_includes_skip:
  "pat \<noteq> [] \<Longrightarrow> hd pat \<notin> set s \<Longrightarrow> js_includes (s @ t) pat = js_includes t pat"
  by (simp add: js_includes_def index_of_skip)

lemma name_then_brace:
  "brace_free k \<Longrightarrow> brace_free n \<Longrightarrow> prefix (k @ js ''}'') (n @ unit_of CHR ''}'' # rest) \<Longrightarrow> k = n"
proof (induction k arbitrary: n)
  case Nil
  then show ?case by (cases n) (auto simp: brace_free_def)
next
  case (Cons a k)
  then show ?case by (cases n) (auto simp: brace_free_def)
qed

lemma segment_prefix:
  "brace_free k \<Longrightarrow> brace_free n \<Longrightarrow> prefix (segment k) (segment n @ rest) \<longleftrightarrow> k = n"
  using name_then_brace [of k n rest] by (auto simp: segment_def)


lemma replace_first_here: "pat \<noteq> [] \<Longrightarrow> replace_first pat rep (pat @ t) = rep @ t"
  by (cases pat) simp_all

lemma js_includes_here: "js_includes (pat @ t) pat"
  by (cases pat; cases t) (simp_all add: js_includes_def)

lemma segment_nonempty: "segment k \<noteq> []" "hd (segment k) = unit_of CHR ''{''"
  by (simp_all add: segment_def)

lemma replace_first_render:
  assumes "brace_free k"
  shows "well_formed ps \<Longrightarrow> replace_first (segment k) rep (render ps) = render (fill_first k rep ps)"
proof (induction ps)
  case Nil
  then show ?case by (simp add: render_def segment_nonempty)
next
  case (Cons p ps)
  then have wf: "well_formed ps" and ok: "piece_ok p" by (simp_all add: well_formed_def)
  show ?case
  proof (cases p)
    case (Lit s)
    with ok have "hd (segment k) \<notin> set s" by (simp add: segment_nonempty brace_free_def)
    then have "replace_first (segment k) rep (s @ render ps) = s @ replace_first (segment k) rep (render ps)"
      by (rule replace_first_skip [OF segment_nonempty(1)])
    with Cons.IH [OF wf] Lit show ?thesis by (simp add: render_def)
  next
    case (Par n)
    with ok have bn: "brace_free n" by simp
    show ?thesis
    proof (cases "n = k")
      case True
      have "replace_first (segment k) rep (segment k @ render ps) = rep @ render ps"
        by (rule replace_first_here [OF segment_nonempty(1)])
      with True Par show ?thesis by (simp add: render_def)
    next
      case False
      then have np: "\<not> prefix (segment k) (segment n @ render ps)"
        using segment_prefix [OF assms bn] by auto
      have "hd (segment k) \<notin> set (n @ js ''}'')"
        using bn by (simp add: segment_nonempty brace_free_def)
      then have skip: "replace_first (segment k) rep ((n @ js ''}'') @ render ps) =
                   (n @ js ''}'') @ replace_first (segment k) rep (render ps)"
        by (rule replace_first_skip [OF segment_nonempty(1)])
      have "segment n @ render ps = unit_of CHR ''{'' # (n @ js ''}'') @ render ps"
        by (simp add: segment_def)
      with np skip have "replace_first (segment k) rep (segment n @ render ps) =
                   segment n @ replace_first (segment k) rep (render ps)"
        by (simp add: segment_def)
      with False Par Cons.IH [OF wf] show ?thesis by (simp add: render_def)
    qed
  qed
qed

lemma js_includes_render:
  assumes "brace_free k"
  shows "well_formed ps \<Longrightarrow> js_includes (render ps) (segment k) \<longleftrightarrow> k \<in> set (parameters_of ps)"
proof (induction ps)
  case Nil
  then show ?case by (simp add: render_def js_includes_def segment_nonempty)
next
  case (Cons p ps)
  then have wf: "well_formed ps" and ok: "piece_ok p" by (simp_all add: well_formed_def)
  show ?case
  proof (cases p)
    case (Lit s)
    with ok have "hd (segment k) \<notin> set s" by (simp add: segment_nonempty brace_free_def)
    then have "js_includes (s @ render ps) (segment k) = js_includes (render ps) (segment k)"
      by (rule js_includes_skip [OF segment_nonempty(1)])
    with Cons.IH [OF wf] Lit show ?thesis by (simp add: render_def)
  next
    case (Par n)
    with ok have bn: "brace_free n" by simp
    show ?thesis
    proof (cases "n = k")
      case True
      have "js_includes (segment k @ render ps) (segment k)"
        by (rule js_includes_here)
      with True Par show ?thesis by (simp add: render_def)
    next
      case False
      then have np: "\<not> prefix (segment k) (segment n @ render ps)"
        using segment_prefix [OF assms bn] by auto
      have "hd (segment k) \<notin> set (n @ js ''}'')"
        using bn by (simp add: segment_nonempty brace_free_def)
      then have skip: "js_includes ((n @ js ''}'') @ render ps) (segment k) = js_includes (render ps) (segment k)"
        by (rule js_includes_skip [OF segment_nonempty(1)])
      have "segment n @ render ps = unit_of CHR ''{'' # (n @ js ''}'') @ render ps"
        by (simp add: segment_def)
      with np skip have "js_includes (segment n @ render ps) (segment k) = js_includes (render ps) (segment k)"
        by (simp add: segment_def js_includes_def)
      with False Par Cons.IH [OF wf] show ?thesis by (simp add: render_def)
    qed
  qed
qed

section \<open>Filling the pieces of a template\<close>

lemma fill_first_well_formed:
  "brace_free rep \<Longrightarrow> well_formed ps \<Longrightarrow> well_formed (fill_first k rep ps)"
  by (induction k rep ps rule: fill_first.induct) (auto simp: well_formed_def)

lemma fill_piece_ok: "piece_ok p \<Longrightarrow> piece_ok (fill_piece rt args p)"
  by (cases p) (auto simp: encoded_brace_free split: option.splits)

lemma fill_piece_well_formed: "well_formed ps \<Longrightarrow> well_formed (map (fill_piece rt args) ps)"
  by (induction ps) (auto simp: well_formed_def fill_piece_ok)

lemma piece_text_fill_piece: "piece_text (fill_piece rt args p) = filled rt args p"
  by (cases p) (auto split: option.splits)

lemma render_fill_piece: "render (map (fill_piece rt args) ps) = concat (map (filled rt args) ps)"
  by (simp add: render_def comp_def piece_text_fill_piece)

lemma fill_piece_empty: "map (fill_piece rt []) ps = ps"
proof (induction ps)
  case Nil
  then show ?case by simp
next
  case (Cons p ps)
  then show ?case by (cases p) (simp_all add: obj_get_def)
qed

lemma obj_get_snoc:
  "obj_get (seen @ [(k, v)]) n =
     (case obj_get seen n of Some x \<Rightarrow> Some x | None \<Rightarrow> if n = k then Some v else None)"
  by (auto simp: obj_get_def map_add_def split: option.splits)

lemma fill_piece_other:
  "k \<notin> set (parameters_of ps) \<Longrightarrow> map (fill_piece rt (seen @ [(k, v)])) ps = map (fill_piece rt seen) ps"
proof (induction ps)
  case Nil
  then show ?case by simp
next
  case (Cons p ps)
  then show ?case by (cases p) (auto simp: obj_get_snoc split: option.splits)
qed

lemma fill_first_fill_piece:
  assumes "distinct (parameters_of ps)"
  shows "fill_first k (encoded (js_String rt v)) (map (fill_piece rt seen) ps) =
           map (fill_piece rt (seen @ [(k, v)])) ps"
  using assms
proof (induction ps)
  case Nil
  then show ?case by simp
next
  case (Cons p ps)
  show ?case
  proof (cases p)
    case (Lit s)
    with Cons show ?thesis by simp
  next
    case (Par n)
    with Cons.prems have d: "distinct (parameters_of ps)" and nn: "n \<notin> set (parameters_of ps)"
      by simp_all
    show ?thesis
    proof (cases "n = k")
      case True
      with nn have "map (fill_piece rt (seen @ [(k, v)])) ps = map (fill_piece rt seen) ps"
        by (simp add: fill_piece_other)
      with True Par Cons.IH [OF d] show ?thesis
        by (auto simp: obj_get_snoc split: option.splits)
    next
      case False
      with Par Cons.IH [OF d] show ?thesis
        by (auto simp: obj_get_snoc split: option.splits)
    qed
  qed
qed

section \<open>The final request path\<close>

lemma replace_parameter_render:
  assumes wf: "well_formed ps" and d: "distinct (parameters_of ps)"
    and bk: "brace_free k" and bl: "brace_free l"
    and enc: "k \<in> set (parameters_of ps) \<Longrightarrow> \<not> has_lone_surrogate (js_String rt v)"
  shows "replace_parameter rt (render ps) (k, v) (render (Lit l # map (fill_piece rt seen) ps)) =
           Inr (render (Lit l # map (fill_piece rt (seen @ [(k, v)])) ps))"
proof (cases "k \<in> set (parameters_of ps)")
  case True
  let ?rep = "encoded (js_String rt v)"
  from enc [OF True] have some: "encodeURIComponent (js_String rt v) = Some ?rep"
    by (cases "encodeURIComponent (js_String rt v)")
       (simp_all add: encodeURIComponent_None_iff [symmetric] encoded_def)
  have wf': "well_formed (Lit l # map (fill_piece rt seen) ps)"
    using fill_piece_well_formed [OF wf, of rt seen] bl by (simp add: well_formed_def)
  have "replace_parameter rt (render ps) (k, v) (render (Lit l # map (fill_piece rt seen) ps)) =
          Inr (js_replace (render (Lit l # map (fill_piece rt seen) ps)) (segment k) ?rep)"
    using True js_includes_render [OF bk wf] some by (simp add: replace_parameter_def)
  also have "js_replace (render (Lit l # map (fill_piece rt seen) ps)) (segment k) ?rep =
          replace_first (segment k) ?rep (render (Lit l # map (fill_piece rt seen) ps))"
    by (rule js_replace_plain [OF encoded_no_dollar])
  also have "\<dots> = render (fill_first k ?rep (Lit l # map (fill_piece rt seen) ps))"
    by (rule replace_first_render [OF bk wf'])
  also have "\<dots> = render (Lit l # map (fill_piece rt (seen @ [(k, v)])) ps)"
    by (simp add: fill_first_fill_piece [OF d])
  finally show ?thesis .
next
  case False
  then have "replace_parameter rt (render ps) (k, v) (render (Lit l # map (fill_piece rt seen) ps)) =
          Inr (render (Lit l # map (fill_piece rt seen) ps))"
    using js_includes_render [OF bk wf] by (simp add: replace_parameter_def)
  with False show ?thesis by (simp add: fill_piece_other)
qed

lemma replace_parameters_render:
  assumes wf: "well_formed ps" and d: "distinct (parameters_of ps)" and bl: "brace_free l"
  shows "\<forall>k \<in> fst ` set es. brace_free k \<Longrightarrow>
         \<forall>entry \<in> set es. fst entry \<in> set (parameters_of ps) \<longrightarrow>
              \<not> has_lone_surrogate (js_String rt (snd entry)) \<Longrightarrow>
         replace_parameters rt (render ps) es (render (Lit l # map (fill_piece rt seen) ps)) =
           Inr (render (Lit l # map (fill_piece rt (seen @ es)) ps))"
proof (induction es arbitrary: seen)
  case Nil
  then show ?case by simp
next
  case (Cons e es)
  obtain k v where e: "e = (k, v)" by (cases e)
  with Cons.prems have bk: "brace_free k" and rest: "\<forall>k \<in> fst ` set es. brace_free k"
    and enc: "k \<in> set (parameters_of ps) \<Longrightarrow> \<not> has_lone_surrogate (js_String rt v)"
    and encs: "\<forall>entry \<in> set es. fst entry \<in> set (parameters_of ps) \<longrightarrow>
              \<not> has_lone_surrogate (js_String rt (snd entry))"
    by auto
  show ?case
    using Cons.IH [OF rest encs, of "seen @ [(k, v)]"]
    by (simp add: e replace_parameter_render [OF wf d bk bl enc])
qed

lemma replace_parameter_Inl: "replace_parameter rt path entry finalPath = Inl e \<Longrightarrow> e = uri_malformed"
  by (auto simp: replace_parameter_def split: if_splits option.splits)

lemma replace_parameters_fails:
  "\<exists>entry \<in> set es. js_includes path (segment (fst entry)) \<and>
                      has_lone_surrogate (js_String rt (snd entry)) \<Longrightarrow>
   replace_parameters rt path es finalPath = Inl uri_malformed"
proof (induction es arbitrary: finalPath)
  case Nil
  then show ?case by simp
next
  case (Cons e es)
  show ?case
  proof (cases "replace_parameter rt path e finalPath")
    case (Inl err)
    then show ?thesis by (simp add: replace_parameter_Inl [OF Inl])
  next
    case (Inr replaced)
    then have "\<not> (js_includes path (segment (fst e)) \<and> has_lone_surrogate (js_String rt (snd e)))"
      by (auto simp: replace_parameter_def encodeURIComponent_None_iff [symmetric]
                split: option.splits)
    with Cons.prems have "\<exists>entry \<in> set es. js_includes path (segment (fst entry)) \<and>
                      has_lone_surrogate (js_String rt (snd entry))"
      by auto
    from Cons.IH [OF this] Inr show ?thesis by simp
  qed
qed

lemma prefix_path_lead: "prefix_path path = integrations_lead path @ path"
  by (simp add: prefix_path_def integrations_lead_def)

lemma integrations_lead_brace_free: "brace_free (integrations_lead path)"
  by (simp add: integrations_lead_def brace_free_def)

lemma final_path_render:
  assumes "well_formed ps" and "distinct (parameters_of ps)"
    and "\<forall>k \<in> fst ` set args. brace_free k"
    and "\<forall>entry \<in> set args. fst entry \<in> set (parameters_of ps) \<longrightarrow>
              \<not> has_lone_surrogate (js_String rt (snd entry))"
  shows "final_path rt (render ps) args =
           Inr (render (Lit (integrations_lead (render ps)) # map (fill_piece rt args) ps))"
proof -
  have "prefix_path (render ps) =
          render (Lit (integrations_lead (render ps)) # map (fill_piece rt []) ps)"
    by (simp add: prefix_path_lead fill_piece_empty render_def)
  then show ?thesis
    using replace_parameters_render
            [where seen = "[]" and l = "integrations_lead (render ps)",
             OF assms(1,2) integrations_lead_brace_free assms(3,4)]
    by (simp add: final_path_def)
qed

lemma final_path_fails:
  assumes "well_formed ps" and "\<forall>k \<in> fst ` set args. brace_free k"
    and "\<not> (\<forall>entry \<in> set args. fst entry \<in> set (parameters_of ps) \<longrightarrow>
              \<not> has_lone_surrogate (js_String rt (snd entry)))"
  shows "final_path rt (render ps) args = Inl uri_malformed"
proof -
  from assms(3) obtain entry where entry: "entry \<in> set args"
    "fst entry \<in> set (parameters_of ps)" "has_lone_surrogate (js_String rt (snd entry))"
    by auto
  from entry(1) assms(2) have "brace_free (fst entry)" by auto
  from js_includes_render [OF this assms(1)] entry(2)
  have "js_includes (render ps) (segment (fst entry))" by simp
  with entry(1,3) show ?thesis
    unfolding final_path_def by (intro replace_parameters_fails) auto
qed

lemma parameters_of_fill_piece:
  "obj_get args x \<noteq> None \<Longrightarrow> x \<notin> set (parameters_of (map (fill_piece rt args) ps))"
proof (induction ps)
  case Nil
  then show ?case by simp
next
  case (Cons p ps)
  then show ?case by (cases p) (auto split: option.splits)
qed

lemma well_formed_parameter: "well_formed ps \<Longrightarrow> x \<in> set (parameters_of ps) \<Longrightarrow> brace_free x"
proof (induction ps)
  case Nil
  then show ?case by simp
next
  case (Cons p ps)
  then show ?case by (cases p) (auto simp: well_formed_def)
qed

lemma parameters_of_append: "parameters_of (ps @ qs) = parameters_of ps @ parameters_of qs"
  by (induction ps rule: parameters_of.induct) simp_all

text \<open>
  C5, as the code has it. Take a well-formed path template in which no parameter segment
  occurs twice, and validated arguments whose names hold no brace, with the value \<open>v\<close>
  for the parameter \<open>x\<close> of the template. If no argument of a parameter of the template
  has a lone surrogate in its string form, the final request path is the template
  (behind \<^verbatim>\<open>/integrations\<close> where the Hawksoft rule adds it) with the segment of \<open>x\<close>
  replaced, at its place, by the percent-encoded string form of \<open>v\<close>; the text before
  and after it is the template's, every other segment filled in the same way when it
  has an argument and left as written when it has none; and the final path holds no
  literal segment of \<open>x\<close>. If one of them has a lone surrogate, there is no final
  path: \<^verbatim>\<open>encodeURIComponent\<close> raises \<^verbatim>\<open>URIError\<close>.
\<close>

theorem path_parameter_substituted:
  assumes "well_formed (pre @ Par x # post)"
    and "distinct (parameters_of (pre @ Par x # post))"
    and "\<forall>k \<in> fst ` set validatedParams. brace_free k"
    and "obj_get validatedParams x = Some v"
  shows "if \<forall>entry \<in> set validatedParams.
              fst entry \<in> set (parameters_of (pre @ Par x # post)) \<longrightarrow>
              \<not> has_lone_surrogate (js_String rt (snd entry))
         then encodeURIComponent (js_String rt v) = Some (encoded (js_String rt v)) \<and>
              (\<exists>finalPath.
                 final_path rt (render (pre @ Par x # post)) validatedParams = Inr finalPath \<and>
                 finalPath =
                   integrations_lead (render (pre @ Par x # post)) @
                   concat (map (filled rt validatedParams) pre) @
                   encoded (js_String rt v) @
                   concat (map (filled rt validatedParams) post) \<and>
                 \<not> js_includes finalPath (segment x))
         else final_path rt (render (pre @ Par x # post)) validatedParams = Inl uri_malformed"
proof (cases "\<forall>entry \<in> set validatedParams.
              fst entry \<in> set (parameters_of (pre @ Par x # post)) \<longrightarrow>
              \<not> has_lone_surrogate (js_String rt (snd entry))")
  case False
  then show ?thesis
    using final_path_fails [OF assms(1,3) False] by simp
next
  case True
  let ?ps = "pre @ Par x # post"
  let ?qs = "Lit (integrations_lead (render ?ps)) # map (fill_piece rt validatedParams) ?ps"
  have xin: "x \<in> set (parameters_of ?ps)"
    by (simp add: parameters_of_append)
  from assms(4) have "(x, v) \<in> set validatedParams"
    by (simp add: obj_get_def map_of_SomeD)
  with True xin have "\<not> has_lone_surrogate (js_String rt v)" by fastforce
  then have some: "encodeURIComponent (js_String rt v) = Some (encoded (js_String rt v))"
    by (cases "encodeURIComponent (js_String rt v)")
       (simp_all add: encodeURIComponent_None_iff [symmetric] encoded_def)
  have eq: "final_path rt (render ?ps) validatedParams = Inr (render ?qs)"
    by (rule final_path_render [OF assms(1,2,3) True])
  have bx: "brace_free x"
    by (rule well_formed_parameter [OF assms(1) xin])
  have wf: "well_formed ?qs"
    using fill_piece_well_formed [OF assms(1), of rt validatedParams] integrations_lead_brace_free
    by (simp add: well_formed_def)
  have "x \<notin> set (parameters_of ?qs)"
    using parameters_of_fill_piece [of validatedParams x rt ?ps] assms(4) by simp
  then have no: "\<not> js_includes (render ?qs) (segment x)"
    using js_includes_render [OF bx wf] by simp
  have shape: "render ?qs = integrations_lead (render ?ps) @
           concat (map (filled rt validatedParams) pre) @
           encoded (js_String rt v) @
           concat (map (filled rt validatedParams) post)"
    using assms(4) by (simp add: render_def comp_def piece_text_fill_piece)
  from True some eq no shape show ?thesis by simp
qed

lemma surrogate_not_unreserved:
  "is_high_surrogate c \<or> is_low_surrogate c \<Longrightarrow> \<not> uri_unreserved c"
  using unreserved_not_surrogate by blast

lemmas encode_defs =
  uri_unreserved_def is_low_surrogate_def is_high_surrogate_def unat_unit_of
  percent_encoded_def utf8_bytes_def percent_byte_def hex_digit_def

lemmas path_defs =
  final_path_def prefix_path_def replace_parameter_def segment_def
  js_includes_def js_startsWith_def js_replace_def

lemmas number_defs =
  is_integer_def number_to_string_def decimal.simps digit_char_def

theorem path_parameter_substituted_witness:
  "final_path sample_runtime (js ''/items/{id}/notes'') [(js ''id'', JStr (js ''4 2''))] =
     Inr (js ''/items/4%202/notes'')
   \<and> \<not> js_includes (js ''/items/4%202/notes'') (js ''{id}'')
   \<and> final_path sample_runtime (js ''/items/{id}/notes'') [(js ''id'', JStr [0xD800])] =
     Inl (URIError (js ''URI malformed''))"
proof -
  have high: "is_high_surrogate 0xD800"
    by (simp add: is_high_surrogate_def)
  then have plain: "\<not> uri_unreserved 0xD800"
    by (simp add: surrogate_not_unreserved)
  have fails: "final_path sample_runtime (js ''/items/{id}/notes'') [(js ''id'', JStr [0xD800])] =
     Inl (URIError (js ''URI malformed''))"
    by (simp add: path_defs high plain uri_malformed_def)
  have "\<forall>entry \<in> set [(js ''id'', JStr (js ''4 2''))].
              fst entry \<in> set (parameters_of ([Lit (js ''/items/'')] @ Par (js ''id'') # [Lit (js ''/notes'')])) \<longrightarrow>
              \<not> has_lone_surrogate (js_String sample_runtime (snd entry))"
    by (simp add: is_low_surrogate_def is_high_surrogate_def unat_unit_of)
  with path_parameter_substituted
          [of "[Lit (js ''/items/'')]" "js ''id''" "[Lit (js ''/notes'')]"
              "[(js ''id'', JStr (js ''4 2''))]" "JStr (js ''4 2'')" sample_runtime]
  have "final_path sample_runtime (render ([Lit (js ''/items/'')] @ Par (js ''id'') # [Lit (js ''/notes'')]))
          [(js ''id'', JStr (js ''4 2''))] =
        Inr (integrations_lead (render ([Lit (js ''/items/'')] @ Par (js ''id'') # [Lit (js ''/notes'')])) @
             js ''/items/'' @ encoded (js ''4 2'') @ js ''/notes'')
      \<and> \<not> js_includes (integrations_lead (render ([Lit (js ''/items/'')] @ Par (js ''id'') # [Lit (js ''/notes'')])) @
             js ''/items/'' @ encoded (js ''4 2'') @ js ''/notes'') (segment (js ''id''))"
    by (simp add: well_formed_def brace_free_def obj_get_def)
  then have "final_path sample_runtime (js ''/items/{id}/notes'') [(js ''id'', JStr (js ''4 2''))] =
     Inr (js ''/items/4%202/notes'')
   \<and> \<not> js_includes (js ''/items/4%202/notes'') (js ''{id}'')"
    by (simp add: render_def segment_def integrations_lead_def js_startsWith_def
          encoded_def encode_defs js_includes_def)
  with fails show ?thesis by simp
qed

text \<open>
  A template that holds the segment of \<open>x\<close> twice: the first is replaced, the
  second stays in the final path.
\<close>

theorem repeated_segment_counterexample:
  "final_path sample_runtime (js ''/a/{x}/b/{x}'') [(js ''x'', JNum 1)] = Inr (js ''/a/1/b/{x}'')
   \<and> js_includes (js ''/a/1/b/{x}'') (segment (js ''x''))"
  by (simp add: path_defs number_defs encode_defs)

declare js_simps [simp del]

section \<open>Query parameters and arguments without a validator\<close>

lemma fold_filter_skip:
  assumes "\<And>x acc. \<not> P x \<Longrightarrow> f x acc = acc"
  shows "fold f (filter P xs) acc = fold f xs acc"
  by (induction xs arbitrary: acc) (simp_all add: assms)

lemma path_parameter_schemas_query:
  "path_parameter_schemas (filter (\<lambda>param. p_in param \<noteq> (js ''query'')) params) =
     path_parameter_schemas params"
  unfolding path_parameter_schemas_def by (rule fold_filter_skip) simp

lemma parameter_headers_query:
  "parameter_headers (filter (\<lambda>param. p_in param \<noteq> (js ''query'')) params) organizationId headers =
     parameter_headers params organizationId headers"
  unfolding parameter_headers_def by (rule fold_filter_skip) simp

lemma build_param_schema_query:
  "build_param_schema schemas (without_query op) = build_param_schema schemas op"
  by (simp add: build_param_schema_def without_query_def path_parameter_schemas_query)

lemma accept_header_query: "accept_header (without_query op) = accept_header op"
  by (simp add: accept_header_def without_query_def)

lemma build_headers_query:
  "build_headers (without_query op) organizationId finalPath accept =
     build_headers op organizationId finalPath accept"
  by (simp add: build_headers_def without_query_def parameter_headers_query)

lemma requestBody_query: "requestBody (without_query op) = requestBody op"
  by (simp add: without_query_def)

lemma build_request_query:
  "build_request rt path method (without_query op) baseUrl organizationId paramSchema params =
     build_request rt path method op baseUrl organizationId paramSchema params"
  by (simp add: build_request_def Let_def accept_header_query build_headers_query requestBody_query
           split: sum.splits)

lemma handler_query:
  "handler path method (without_query op) baseUrl organizationId toolName paramSchema =
     handler path method op baseUrl organizationId toolName paramSchema"
  by (intro ext) (simp add: handler_def build_request_query)

lemma toolName_of_query: "toolName_of path method (without_query op) = toolName_of path method op"
  by (simp add: toolName_of_def without_query_def)

lemma createToolFromEndpoint_query:
  "createToolFromEndpoint schemas path method (without_query op) baseUrl organizationId =
     createToolFromEndpoint schemas path method op baseUrl organizationId"
  by (simp add: createToolFromEndpoint_def Let_def build_param_schema_query handler_query
        toolName_of_query split: sum.splits)

text \<open>The names that get a validator from the parameter loop.\<close>

lemma obj_set_keys: "fst ` set (obj_set k v ob) = insert k (fst ` set ob)"
  by (induction k v ob rule: obj_set.induct) auto

lemma fold_path_keys:
  "fst ` set (fold (\<lambda>param paramSchema.
             if p_in param = js ''path''
             then obj_set (p_name param) (getZodSchemaForParameter param) paramSchema
             else paramSchema) params acc) =
     fst ` set acc \<union> p_name ` {param \<in> set params. p_in param = js ''path''}"
  by (induction params arbitrary: acc) (auto simp: obj_set_keys)

lemma path_parameter_schemas_keys:
  "fst ` set (path_parameter_schemas params) = p_name ` {param \<in> set params. p_in param = js ''path''}"
  by (simp add: path_parameter_schemas_def fold_path_keys)

text \<open>
  An argument without a validator is never read: two argument objects that agree on the
  validated names are handled alike.
\<close>

lemma obj_get_resolve_placeholders:
  "obj_get (resolve_placeholders rt params) k = map_option (resolve_placeholder rt k) (obj_get params k)"
  by (induction params) (auto simp: resolve_placeholders_def obj_get_def)

lemma obj_has_get: "obj_has ob k \<longleftrightarrow> obj_get ob k \<noteq> None"
  by (simp add: obj_has_def obj_get_def map_of_eq_None_iff)

lemma z_object_parse_agree:
  assumes "\<forall>k \<in> fst ` set shape. obj_get data k = obj_get data' k"
  shows "z_object_parse rt shape data = z_object_parse rt shape data'"
proof -
  have fv: "field_value data k = field_value data' k" if "(k, z) \<in> set shape" for k z
  proof -
    from that have "k \<in> fst ` set shape" by force
    with assms have "obj_get data k = obj_get data' k" by blast
    then show ?thesis by (simp add: field_value_def)
  qed
  have oh: "obj_has data k = obj_has data' k" if "(k, z) \<in> set shape" for k z
  proof -
    from that have "k \<in> fst ` set shape" by force
    with assms have "obj_get data k = obj_get data' k" by blast
    then show ?thesis by (simp add: obj_has_get)
  qed
  have m1: "map (\<lambda>(k, z). (k, z, field_value data k)) xs =
            map (\<lambda>(k, z). (k, z, field_value data' k)) xs" if "set xs \<subseteq> set shape" for xs
    using that by (intro map_cong refl) (auto simp: fv)
  have m2: "map (\<lambda>(k, z). (k, field_value data k)) xs =
            map (\<lambda>(k, z). (k, field_value data' k)) xs" if "set xs \<subseteq> set shape" for xs
    using that by (intro map_cong refl) (auto simp: fv)
  have f1: "filter (\<lambda>(k, z). \<not> accepts rt z (field_value data k)) shape =
            filter (\<lambda>(k, z). \<not> accepts rt z (field_value data' k)) shape"
    by (rule filter_cong) (auto simp: fv)
  have f2: "filter (\<lambda>(k, z). obj_has data k \<or> field_value data k \<noteq> JUndefined) shape =
            filter (\<lambda>(k, z). obj_has data' k \<or> field_value data' k \<noteq> JUndefined) shape"
    by (rule filter_cong) (auto simp: fv oh)
  have "object_issues rt shape data = object_issues rt shape data'"
    unfolding object_issues_def f1 by (rule m1) simp
  moreover have "object_output shape data = object_output shape data'"
    unfolding object_output_def f2 by (rule m2) simp
  ultimately show ?thesis by (simp add: z_object_parse_def)
qed


lemma build_request_agree:
  assumes "\<forall>k \<in> fst ` set paramSchema. obj_get params k = obj_get params' k"
  shows "build_request rt path method op baseUrl organizationId paramSchema params =
         build_request rt path method op baseUrl organizationId paramSchema params'"
proof -
  have "z_object_parse rt paramSchema (resolve_placeholders rt params) =
        z_object_parse rt paramSchema (resolve_placeholders rt params')"
    by (rule z_object_parse_agree) (simp add: obj_get_resolve_placeholders assms)
  then show ?thesis by (simp add: build_request_def)
qed

lemma handler_agree:
  assumes "\<forall>k \<in> fst ` set paramSchema. obj_get params k = obj_get params' k"
  shows "handler path method op baseUrl organizationId toolName paramSchema rt params =
         handler path method op baseUrl organizationId toolName paramSchema rt params'"
  by (simp add: handler_def build_request_agree [OF assms])

section \<open>Evaluating the model on the sample inputs\<close>

lemmas request_defs =
  build_request_def resolve_placeholders_def resolve_placeholder_def
  z_object_parse_def object_issues_def object_output_def field_value_def
  obj_get_def obj_has_def obj_delete_def
  path_defs encode_defs uri_malformed_def
  accept_header_def build_headers_def parameter_headers_def body_params_def
  toUpperCase_def ascii_upper_def guid_sentinel_def datetime_sentinel_def
  js_simps

lemmas handler_defs =
  handler_def error_text_def message_def res_ok_def response_text_def cannot_read_def

lemmas schema_defs =
  build_param_schema_def path_parameter_schemas_def getZodSchemaForParameter_def
  schema_name_of_def resolveSchemaRef_def createToolFromEndpoint_def toolName_of_def

lemmas sample_defs =
  sample_runtime_def id_parameter_def q_parameter_def get_item_def search_item_def
  item_schemas_def put_item_def create_item_def base_def organization_def

section \<open>Placeholders and validation\<close>

text \<open>
  The placeholder pass replaces the two sentinels by what the runtime returns and
  leaves every other value as it is; validation reads the arguments after that pass,
  and the request is built from the validated arguments.
\<close>

lemma resolve_placeholder_guid:
  "resolve_placeholder rt key (JStr guid_sentinel) = JStr (randomUUID rt key)"
  by (simp add: resolve_placeholder_def)

lemma resolve_placeholder_datetime:
  "resolve_placeholder rt key (JStr datetime_sentinel) = JStr (now_iso rt key)"
  by (simp add: resolve_placeholder_def guid_sentinel_def datetime_sentinel_def)

lemma resolve_placeholder_other:
  "v \<noteq> JStr guid_sentinel \<Longrightarrow> v \<noteq> JStr datetime_sentinel \<Longrightarrow> resolve_placeholder rt key v = v"
  by (simp add: resolve_placeholder_def)

lemma build_request_validates_resolved:
  assumes "build_request rt path verb oper baseUrl organizationId paramSchema params = Inr req"
  shows "\<exists>validatedParams finalPath.
           z_object_parse rt paramSchema (resolve_placeholders rt params) = Inr validatedParams \<and>
           final_path rt path validatedParams = Inr finalPath \<and>
           req_url req = baseUrl @ finalPath \<and>
           req_body req = (case requestBody oper of None \<Rightarrow> None
                           | Some rb \<Rightarrow> Some (body_params validatedParams))"
  using assms by (auto simp: build_request_def Let_def split: sum.splits)

lemma object_output_keys: "fst ` set (object_output shape data) \<subseteq> fst ` set shape"
  by (force simp: object_output_def)

section \<open>The tool name (C2)\<close>

lemma toolName_of_explicit:
  "operationId op = Some oid \<Longrightarrow> oid \<noteq> [] \<Longrightarrow> toolName_of path method op = oid"
  by (simp add: toolName_of_def)

lemma swagger_tool_name_explicit:
  "oid \<noteq> [] \<Longrightarrow> swagger_tool_name tagName opId (Some oid) = sanitize oid"
  by (simp add: swagger_tool_name_def)

text \<open>
  C2. An operation whose identifier is \<^verbatim>\<open>items.get\<close>: \<open>createToolFromEndpoint\<close>
  registers it under the identifier as written, dot included, where the sanitized
  identifier is \<^verbatim>\<open>items_get\<close>, the name the swagger-client variant derives from
  that identifier; from the tag \<^verbatim>\<open>items\<close> and the key \<^verbatim>\<open>items.get\<close> of an operation
  that carries no identifier it derives \<^verbatim>\<open>items_items_get\<close>.
\<close>

theorem toolName_of_keeps_identifier:
  "toolName_of (js ''/items/{id}'') (js ''get'') (get_item \<lparr> operationId := Some (js ''items.get'') \<rparr>) = js ''items.get''
   \<and> sanitize (js ''items.get'') = js ''items_get''
   \<and> swagger_tool_name (js ''items'') (js ''get'') (Some (js ''items.get'')) = js ''items_get''
   \<and> swagger_tool_name (js ''items'') (js ''items.get'') None = js ''items_items_get''"
  by (simp add: toolName_of_def get_item_def sanitize_def substring_0_def replace_invalid_def
        name_char_def swagger_tool_name_def js_simps)

section \<open>Failures of an invocation (C3, C10)\<close>

lemma handler_validation_failure:
  assumes "z_object_parse rt paramSchema (resolve_placeholders rt params) = Inl e"
  shows "handler path method op baseUrl organizationId toolName paramSchema rt params =
           \<lparr> result_text = error_text rt toolName e, issued = [] \<rparr>"
  using assms by (simp add: handler_def build_request_def)

lemma handler_fetch_rejects:
  assumes "build_request rt path method op baseUrl organizationId paramSchema params = Inr req"
    and "fetch rt req = Rejects m"
  shows "handler path method op baseUrl organizationId toolName paramSchema rt params =
           \<lparr> result_text = error_text rt toolName (Error m), issued = [req] \<rparr>"
  using assms by (simp add: handler_def)

lemma handler_not_ok:
  assumes "build_request rt path method op baseUrl organizationId paramSchema params = Inr req"
    and "fetch rt req = Responds status body" and "\<not> res_ok status"
  shows "handler path method op baseUrl organizationId toolName paramSchema rt params =
           \<lparr> result_text =
               error_text rt toolName (Error (if body \<noteq> [] then body else js ''HTTP error '' @ decimal status)),
             issued = [req] \<rparr>"
  using assms by (simp add: handler_def)

lemma handler_cases:
  "prefix (js ''Error in '' @ toolName @ js '': '')
      (result_text (handler path method op baseUrl organizationId toolName paramSchema rt params))
   \<or> (\<exists>req status body.
        build_request rt path method op baseUrl organizationId paramSchema params = Inr req \<and>
        fetch rt req = Responds status body \<and> res_ok status \<and>
        handler path method op baseUrl organizationId toolName paramSchema rt params =
          \<lparr> result_text = response_text rt body, issued = [req] \<rparr>)"
proof (cases "build_request rt path method op baseUrl organizationId paramSchema params")
  case (Inl e)
  then show ?thesis by (simp add: handler_def error_text_def)
next
  case (Inr req)
  then show ?thesis
    by (cases "fetch rt req") (simp_all add: handler_def error_text_def)
qed

text \<open>
  C3. Whatever the arguments and whatever the network does, the handler returns a text.
  A validation failure gives the text \<^verbatim>\<open>Error in <tool>: <message>\<close> and no request is
  issued; a rejected \<^verbatim>\<open>fetch\<close> gives that text with the rejection's message; a status
  outside 200..299 gives it with the response body, or with \<^verbatim>\<open>HTTP error <status>\<close>
  when the body is empty. The only invocations whose text is the normalized response
  are those that were answered with a status in 200..299.
\<close>

theorem failures_become_text:
  fixes path verb oper baseUrl organizationId toolName paramSchema rt params
  defines "r \<equiv> handler path verb oper baseUrl organizationId toolName paramSchema rt params"
  defines "built \<equiv> build_request rt path verb oper baseUrl organizationId paramSchema params"
  shows "(\<forall>e. z_object_parse rt paramSchema (resolve_placeholders rt params) = Inl e \<longrightarrow>
            result_text r = js ''Error in '' @ toolName @ js '': '' @ message rt e \<and> issued r = [])
       \<and> (\<forall>req m. built = Inr req \<and> fetch rt req = Rejects m \<longrightarrow>
            result_text r = js ''Error in '' @ toolName @ js '': '' @ m)
       \<and> (\<forall>req status body. built = Inr req \<and> fetch rt req = Responds status body \<and> \<not> res_ok status \<longrightarrow>
            result_text r = js ''Error in '' @ toolName @ js '': '' @
                 (if body \<noteq> [] then body else js ''HTTP error '' @ decimal status))
       \<and> (prefix (js ''Error in '' @ toolName @ js '': '') (result_text r)
            \<or> (\<exists>req status body. built = Inr req \<and> fetch rt req = Responds status body \<and>
                  res_ok status \<and> result_text r = response_text rt body))"
proof (intro conjI allI impI)
  fix e assume "z_object_parse rt paramSchema (resolve_placeholders rt params) = Inl e"
  then have "r = \<lparr> result_text = error_text rt toolName e, issued = [] \<rparr>"
    unfolding r_def by (rule handler_validation_failure)
  then show "result_text r = js ''Error in '' @ toolName @ js '': '' @ message rt e" and "issued r = []"
    by (simp_all add: error_text_def)
next
  fix req m assume "built = Inr req \<and> fetch rt req = Rejects m"
  then have "r = \<lparr> result_text = error_text rt toolName (Error m), issued = [req] \<rparr>"
    unfolding r_def built_def by (intro handler_fetch_rejects) simp_all
  then show "result_text r = js ''Error in '' @ toolName @ js '': '' @ m"
    by (simp add: error_text_def message_def)
next
  fix req status body
  assume "built = Inr req \<and> fetch rt req = Responds status body \<and> \<not> res_ok status"
  then have "r = \<lparr> result_text =
               error_text rt toolName (Error (if body \<noteq> [] then body else js ''HTTP error '' @ decimal status)),
             issued = [req] \<rparr>"
    unfolding r_def built_def by (intro handler_not_ok) simp_all
  then show "result_text r = js ''Error in '' @ toolName @ js '': '' @
                 (if body \<noteq> [] then body else js ''HTTP error '' @ decimal status)"
    by (simp add: error_text_def message_def)
next
  show "prefix (js ''Error in '' @ toolName @ js '': '') (result_text r)
            \<or> (\<exists>req status body. built = Inr req \<and> fetch rt req = Responds status body \<and>
                  res_ok status \<and> result_text r = response_text rt body)"
    using handler_cases [of toolName path verb oper baseUrl organizationId paramSchema rt params]
    unfolding r_def built_def by auto
qed

theorem failures_become_text_witness:
  "handler (js ''/items/{id}'') (js ''get'') get_item base organization (js ''getItem'') [(js ''id'', ZString [])]
       sample_runtime [(js ''id'', JNum 5)] =
     \<lparr> result_text = js ''Error in getItem: invalid arguments'', issued = [] \<rparr>
   \<and> result_text (handler (js ''/items/{id}'') (js ''get'') get_item base organization (js ''getItem'') [(js ''id'', ZString [])]
       (sample_runtime \<lparr> fetch := \<lambda>req. Rejects (js ''connection refused'') \<rparr>) [(js ''id'', JStr (js ''42''))]) =
     js ''Error in getItem: connection refused''
   \<and> result_text (handler (js ''/items/{id}'') (js ''get'') get_item base organization (js ''getItem'') [(js ''id'', ZString [])]
       (sample_runtime \<lparr> fetch := \<lambda>req. Responds 404 [] \<rparr>) [(js ''id'', JStr (js ''42''))]) =
     js ''Error in getItem: HTTP error 404''
   \<and> result_text (handler (js ''/items/{id}'') (js ''get'') get_item base organization (js ''getItem'') [(js ''id'', ZString [])]
       (sample_runtime \<lparr> fetch := \<lambda>req. Responds 500 (js ''boom'') \<rparr>) [(js ''id'', JStr (js ''42''))]) =
     js ''Error in getItem: boom''"
  using failures_become_text
          [where rt = sample_runtime and paramSchema = "[(js ''id'', ZString [])]"
             and params = "[(js ''id'', JNum 5)]" and toolName = "js ''getItem''"
             and path = "js ''/items/{id}''" and verb = "js ''get''" and oper = get_item
             and baseUrl = base and organizationId = organization]
  by (simp add: handler_defs request_defs sample_defs decimal.simps digit_char_def)

lemma handler_path_failure:
  assumes "z_object_parse rt paramSchema (resolve_placeholders rt params) = Inr validatedParams"
    and "final_path rt path validatedParams = Inl e"
  shows "handler path method op baseUrl organizationId toolName paramSchema rt params =
           \<lparr> result_text = error_text rt toolName e, issued = [] \<rparr>"
  using assms by (simp add: handler_def build_request_def)

lemma final_path_Inl: "final_path rt path validatedParams = Inl e \<Longrightarrow> e = uri_malformed"
proof -
  have "replace_parameters rt path es finalPath = Inl e \<Longrightarrow> e = uri_malformed" for es finalPath
  proof (induction es arbitrary: finalPath)
    case Nil
    then show ?case by simp
  next
    case (Cons entry es)
    then show ?case
      by (cases "replace_parameter rt path entry finalPath")
         (auto dest: replace_parameter_Inl)
  qed
  then show "final_path rt path validatedParams = Inl e \<Longrightarrow> e = uri_malformed"
    by (simp add: final_path_def)
qed

lemma build_request_no_200:
  assumes "obj_get (responses op) (js ''200'') = None"
  shows "build_request rt path method op baseUrl organizationId paramSchema params =
     Inl (case z_object_parse rt paramSchema (resolve_placeholders rt params) of
            Inl e \<Rightarrow> e
          | Inr validatedParams \<Rightarrow>
              (case final_path rt path validatedParams of
                 Inl e \<Rightarrow> e
               | Inr finalPath \<Rightarrow> TypeError (cannot_read (js ''content''))))"
  using assms by (simp add: build_request_def accept_header_def Let_def split: sum.splits)

text \<open>
  C10. A tool generated from an operation whose responses have no entry \<^verbatim>\<open>"200"\<close>
  never issues a request: every invocation ends in the \<^verbatim>\<open>catch\<close> block, with
  the text \<^verbatim>\<open>Error in <tool>: <message>\<close>, where the message is the validation error
  when the arguments are refused, that of the \<^verbatim>\<open>URIError\<close> when an argument of the path
  cannot be percent-encoded, and otherwise that of the \<^verbatim>\<open>TypeError\<close> raised by
  reading \<^verbatim>\<open>content\<close> of the missing entry.
\<close>

theorem no_200_response_no_request:
  assumes "obj_get (responses oper) (js ''200'') = None"
    and "createToolFromEndpoint schemas path verb oper baseUrl organizationId = Inr t"
  shows "issued (tool_handler t rt params) = []
       \<and> result_text (tool_handler t rt params) =
           js ''Error in '' @ tool_name t @ js '': '' @
           message rt (case z_object_parse rt (tool_schema t) (resolve_placeholders rt params) of
                         Inl e \<Rightarrow> e
                       | Inr validatedParams \<Rightarrow>
                           (case final_path rt path validatedParams of
                              Inl e \<Rightarrow> e
                            | Inr finalPath \<Rightarrow> TypeError (cannot_read (js ''content''))))"
proof -
  from assms(2) obtain paramSchema where
    t: "t = \<lparr> tool_name = toolName_of path verb oper, tool_schema = paramSchema,
              tool_handler = handler path verb oper baseUrl organizationId
                               (toolName_of path verb oper) paramSchema \<rparr>"
    by (auto simp: createToolFromEndpoint_def Let_def split: sum.splits)
  show ?thesis
    by (simp add: t handler_def build_request_no_200 [OF assms(1)] error_text_def)
qed

theorem no_200_response_no_request_witness:
  "obj_get (responses create_item) (js ''200'') = None
   \<and> (case createToolFromEndpoint [] (js ''/items'') (js ''post'') create_item base organization of
        Inl e \<Rightarrow> None
      | Inr t \<Rightarrow> Some (tool_name t, tool_handler t sample_runtime [])) =
      Some (js ''createItem'',
            \<lparr> result_text = js ''Error in createItem: Cannot read properties of undefined (reading ''
                              @ [unit_of CHR 0x27] @ js ''content'' @ [unit_of CHR 0x27] @ js '')'',
              issued = [] \<rparr>)"
  using no_200_response_no_request
          [where oper = create_item and schemas = "[]" and path = "js ''/items''" and verb = "js ''post''"
             and baseUrl = base and organizationId = organization and rt = sample_runtime
             and params = "[]"]
  by (simp add: schema_defs handler_defs request_defs sample_defs Let_def)

section \<open>The validator of a string property (C7)\<close>

text \<open>What the two regular expressions match.\<close>

lemma date_pattern_shape:
  "regex_test Date_pattern s \<longleftrightarrow>
     (\<exists>a b c d e f g h.
        s = [a, b, c, d, unit_of CHR ''-'', e, f, unit_of CHR ''-'', g, h] \<and>
        is_digit a \<and> is_digit b \<and> is_digit c \<and> is_digit d \<and>
        is_digit e \<and> is_digit f \<and> is_digit g \<and> is_digit h)"
proof
  assume r: "regex_test Date_pattern s"
  then have "length s = 10" by simp
  then obtain a b c d x e f y g h where s: "s = [a, b, c, d, x, e, f, y, g, h]"
    by (auto simp: eval_nat_numeral length_Suc_conv)
  with r show "\<exists>a b c d e f g h.
        s = [a, b, c, d, unit_of CHR ''-'', e, f, unit_of CHR ''-'', g, h] \<and>
        is_digit a \<and> is_digit b \<and> is_digit c \<and> is_digit d \<and>
        is_digit e \<and> is_digit f \<and> is_digit g \<and> is_digit h"
    by simp
next
  assume "\<exists>a b c d e f g h.
        s = [a, b, c, d, unit_of CHR ''-'', e, f, unit_of CHR ''-'', g, h] \<and>
        is_digit a \<and> is_digit b \<and> is_digit c \<and> is_digit d \<and>
        is_digit e \<and> is_digit f \<and> is_digit g \<and> is_digit h"
  then show "regex_test Date_pattern s" by auto
qed

lemma time_pattern_shape:
  "regex_test Time_pattern s \<longleftrightarrow>
     (\<exists>a b c d e f.
        s = [a, b, unit_of CHR '':'', c, d, unit_of CHR '':'', e, f] \<and>
        is_digit a \<and> is_digit b \<and> is_digit c \<and> is_digit d \<and> is_digit e \<and> is_digit f)"
proof
  assume r: "regex_test Time_pattern s"
  then have "length s = 8" by simp
  then obtain a b x c d y e f where s: "s = [a, b, x, c, d, y, e, f]"
    by (auto simp: eval_nat_numeral length_Suc_conv)
  with r show "\<exists>a b c d e f.
        s = [a, b, unit_of CHR '':'', c, d, unit_of CHR '':'', e, f] \<and>
        is_digit a \<and> is_digit b \<and> is_digit c \<and> is_digit d \<and> is_digit e \<and> is_digit f"
    by simp
next
  assume "\<exists>a b c d e f.
        s = [a, b, unit_of CHR '':'', c, d, unit_of CHR '':'', e, f] \<and>
        is_digit a \<and> is_digit b \<and> is_digit c \<and> is_digit d \<and> is_digit e \<and> is_digit f"
  then show "regex_test Time_pattern s" by auto
qed

text \<open>
  C7, as the code has it. Take a property of type \<^verbatim>\<open>string\<close> whose validator is not an
  enum validator (neither the property nor the schema it refers to has an \<^verbatim>\<open>enum\<close>).
  The validator accepts strings only, and among them: for the format \<^verbatim>\<open>uuid\<close>, those
  the library takes for a UUID and the GUID sentinel; for the format \<^verbatim>\<open>date-time\<close> and
  for the format \<^verbatim>\<open>datetime\<close>, those the library takes for a datetime with an offset
  and the datetime sentinel; for \<^verbatim>\<open>date\<close>, those matching \<^verbatim>\<open>^\d{4}-\d{2}-\d{2}$\<close>; for
  \<^verbatim>\<open>time\<close>, those matching \<^verbatim>\<open>^\d{2}:\d{2}:\d{2}$\<close>; for any other format and for none,
  every string.
\<close>

theorem string_property_validator:
  assumes "prop_type p = Some (js ''string'')"
    and "resolveSchemaRef ref p schemas = Inr z"
    and "\<forall>vs. z \<noteq> ZEnum vs"
  shows "accepts rt z v \<longleftrightarrow>
     (\<exists>s. v = JStr s \<and>
        (if prop_format p = Some (js ''uuid'') then uuid_test rt s \<or> s = guid_sentinel
         else if prop_format p = Some (js ''date-time'') \<or> prop_format p = Some (js ''datetime'')
           then datetime_offset_test rt s \<or> s = datetime_sentinel
         else if prop_format p = Some (js ''date'') then regex_test Date_pattern s
         else if prop_format p = Some (js ''time'') then regex_test Time_pattern s
         else True))"
proof -
  from assms have z:
    "z = (if prop_format p = Some (js ''uuid'') then ZUnion [ZString [Uuid], ZLiteral guid_sentinel]
          else if prop_format p = Some (js ''date-time'') \<or> prop_format p = Some (js ''datetime'')
            then ZUnion [ZString [Datetime_offset], ZLiteral datetime_sentinel]
          else if prop_format p = Some (js ''date'') then ZString [Regex Date_pattern]
          else if prop_format p = Some (js ''time'') then ZString [Regex Time_pattern]
          else ZString [])"
    by (auto simp: resolveSchemaRef_def Let_def split: option.splits if_splits)
  show ?thesis
    by (cases v) (auto simp: z)
qed

theorem string_property_validator_witness:
  "resolveSchemaRef None \<lparr> prop_type = Some (js ''string''), prop_format = Some (js ''uuid''),
                            prop_ref = None, prop_enum = None \<rparr> [] =
     Inr (ZUnion [ZString [Uuid], ZLiteral guid_sentinel])
   \<and> accepts sample_runtime (ZUnion [ZString [Uuid], ZLiteral guid_sentinel]) (JStr (js ''{{$guid}}''))
   \<and> accepts sample_runtime (ZUnion [ZString [Uuid], ZLiteral guid_sentinel])
        (JStr (js ''123e4567-e89b-42d3-a456-426614174000''))
   \<and> \<not> accepts sample_runtime (ZUnion [ZString [Uuid], ZLiteral guid_sentinel]) (JStr (js ''hello''))"
  using string_property_validator
          [where p = "\<lparr> prop_type = Some (js ''string''), prop_format = Some (js ''uuid''),
                         prop_ref = None, prop_enum = None \<rparr>"
             and ref = None and schemas = "[]" and rt = sample_runtime
             and z = "ZUnion [ZString [Uuid], ZLiteral guid_sentinel]" and v = "JStr (js ''hello'')"]
  by (simp add: resolveSchemaRef_def sample_runtime_def guid_sentinel_def)

theorem datetime_format_counterexample:
  "resolveSchemaRef None \<lparr> prop_type = Some (js ''string''), prop_format = Some (js ''datetime''),
                            prop_ref = None, prop_enum = None \<rparr> [] =
     Inr (ZUnion [ZString [Datetime_offset], ZLiteral datetime_sentinel])
   \<and> \<not> accepts sample_runtime (ZUnion [ZString [Datetime_offset], ZLiteral datetime_sentinel])
          (JStr (js ''hello''))"
  by (simp add: resolveSchemaRef_def sample_runtime_def datetime_sentinel_def)

section \<open>Query parameters (C9)\<close>

text \<open>
  C9. A parameter whose location is \<^verbatim>\<open>query\<close> contributes nothing to the tool:
  the tool generated from an operation is the tool generated from the operation without
  its query parameters (same name, same validators, same handler); the names that the
  parameter loop gives a validator are the names of the parameters whose location is
  \<^verbatim>\<open>path\<close>; and an argument whose name has no validator is never read, so that two
  argument objects that agree on the validated names get the same text and the same
  request (URL, headers and body).
\<close>

theorem query_parameters_contribute_nothing:
  "createToolFromEndpoint schemas path method op baseUrl organizationId =
     createToolFromEndpoint schemas path method (without_query op) baseUrl organizationId
   \<and> fst ` set (path_parameter_schemas (parameters op)) =
       p_name ` {param \<in> set (parameters op). p_in param = js ''path''}
   \<and> (\<forall>t rt (params :: jsval obj) (params' :: jsval obj).
         createToolFromEndpoint schemas path method op baseUrl organizationId = Inr t \<and>
         (\<forall>k \<in> fst ` set (tool_schema t). obj_get params k = obj_get params' k) \<longrightarrow>
         tool_handler t rt params = tool_handler t rt params')"
proof (intro conjI allI impI)
  show "createToolFromEndpoint schemas path method op baseUrl organizationId =
     createToolFromEndpoint schemas path method (without_query op) baseUrl organizationId"
    by (simp add: createToolFromEndpoint_query)
next
  show "fst ` set (path_parameter_schemas (parameters op)) =
       p_name ` {param \<in> set (parameters op). p_in param = js ''path''}"
    by (rule path_parameter_schemas_keys)
next
  fix t rt and params params' :: "jsval obj"
  assume a: "createToolFromEndpoint schemas path method op baseUrl organizationId = Inr t \<and>
         (\<forall>k \<in> fst ` set (tool_schema t). obj_get params k = obj_get params' k)"
  then obtain paramSchema where
    t: "t = \<lparr> tool_name = toolName_of path method op, tool_schema = paramSchema,
              tool_handler = handler path method op baseUrl organizationId
                               (toolName_of path method op) paramSchema \<rparr>"
    by (auto simp: createToolFromEndpoint_def Let_def split: sum.splits)
  with a have "\<forall>k \<in> fst ` set paramSchema. obj_get params k = obj_get params' k"
    by simp
  then show "tool_handler t rt params = tool_handler t rt params'"
    by (simp add: t handler_agree)
qed

theorem query_parameters_contribute_nothing_witness:
  "createToolFromEndpoint [] (js ''/items/{id}'') (js ''get'') search_item base organization =
     Inr \<lparr> tool_name = js ''getItem'', tool_schema = [(js ''id'', ZString [])],
           tool_handler = handler (js ''/items/{id}'') (js ''get'') search_item base organization (js ''getItem'')
                            [(js ''id'', ZString [])] \<rparr>
   \<and> handler (js ''/items/{id}'') (js ''get'') search_item base organization (js ''getItem'') [(js ''id'', ZString [])]
        sample_runtime [(js ''id'', JStr (js ''42'')), (js ''q'', JStr (js ''secret''))] =
     handler (js ''/items/{id}'') (js ''get'') search_item base organization (js ''getItem'') [(js ''id'', ZString [])]
        sample_runtime [(js ''id'', JStr (js ''42''))]
   \<and> handler (js ''/items/{id}'') (js ''get'') search_item base organization (js ''getItem'') [(js ''id'', ZString [])]
        sample_runtime [(js ''id'', JStr (js ''42'')), (js ''q'', JStr (js ''secret''))] =
     \<lparr> result_text = js ''ok'',
       issued = [\<lparr> req_url = js ''http://localhost:9999/items/42'', req_method = js ''GET'',
                   req_headers = [(js ''Content-Type'', js ''application/json''), (js ''Accept'', js ''text/plain'')],
                   req_body = None \<rparr>] \<rparr>"
proof -
  let ?t = "\<lparr> tool_name = js ''getItem'', tool_schema = [(js ''id'', ZString [])],
              tool_handler = handler (js ''/items/{id}'') (js ''get'') search_item base organization (js ''getItem'')
                               [(js ''id'', ZString [])] \<rparr>"
  have created: "createToolFromEndpoint [] (js ''/items/{id}'') (js ''get'') search_item base organization = Inr ?t"
    by (simp add: schema_defs sample_defs Let_def)
  have agree: "\<forall>k \<in> fst ` set (tool_schema ?t).
                 obj_get [(js ''id'', JStr (js ''42'')), (js ''q'', JStr (js ''secret''))] k =
                 obj_get [(js ''id'', JStr (js ''42''))] k"
    by (simp add: obj_get_def)
  have same: "tool_handler ?t sample_runtime [(js ''id'', JStr (js ''42'')), (js ''q'', JStr (js ''secret''))] =
              tool_handler ?t sample_runtime [(js ''id'', JStr (js ''42''))]"
    by (rule query_parameters_contribute_nothing
               [THEN conjunct2, THEN conjunct2, rule_format, OF conjI, OF created agree])
  have run: "handler (js ''/items/{id}'') (js ''get'') search_item base organization (js ''getItem'')
        [(js ''id'', ZString [])] sample_runtime [(js ''id'', JStr (js ''42'')), (js ''q'', JStr (js ''secret''))] =
     \<lparr> result_text = js ''ok'',
       issued = [\<lparr> req_url = js ''http://localhost:9999/items/42'', req_method = js ''GET'',
                   req_headers = [(js ''Content-Type'', js ''application/json''), (js ''Accept'', js ''text/plain'')],
                   req_body = None \<rparr>] \<rparr>"
    by (simp add: handler_defs request_defs sample_defs)
  from created same run show ?thesis by simp
qed

section \<open>The request body (C4)\<close>

lemma body_params_v2_keys:
  "fst ` set (body_params_v2 path params) = {k \<in> fst ` set params. \<not> js_includes path (segment k)}"
  by (auto simp: body_params_v2_def)

lemma body_params_same:
  "obj_get validatedParams (js ''ClientNumber'') = None \<Longrightarrow> body_params validatedParams = validatedParams"
  by (simp add: body_params_def)

text \<open>
  C4. The operation \<^verbatim>\<open>PUT /items/{id}\<close> with a body schema that has the field
  \<^verbatim>\<open>name\<close>, called with the arguments \<^verbatim>\<open>id = "42"\<close> and \<^verbatim>\<open>name = "x"\<close>: the argument
  \<^verbatim>\<open>id\<close> goes into the path and stays in the body as well. The earlier variant of
  the handler deletes it from the body. The rename of \<^verbatim>\<open>ClientNumber\<close> looks at the
  arguments only, not at the path of the endpoint.
\<close>

theorem body_keeps_path_argument:
  "build_param_schema item_schemas put_item = Inr [(js ''id'', ZString []), (js ''name'', ZString [])]
   \<and> build_request sample_runtime (js ''/items/{id}'') (js ''put'') put_item base organization
         [(js ''id'', ZString []), (js ''name'', ZString [])]
         [(js ''id'', JStr (js ''42'')), (js ''name'', JStr (js ''x''))] =
       Inr \<lparr> req_url = js ''http://localhost:9999/items/42'', req_method = js ''PUT'',
             req_headers = [(js ''Content-Type'', js ''application/json''), (js ''Accept'', js ''application/json'')],
             req_body = Some [(js ''id'', JStr (js ''42'')), (js ''name'', JStr (js ''x''))] \<rparr>
   \<and> body_params_v2 (js ''/items/{id}'') [(js ''id'', JStr (js ''42'')), (js ''name'', JStr (js ''x''))] =
         [(js ''name'', JStr (js ''x''))]
   \<and> body_params [(js ''ClientNumber'', JNum 7), (js ''name'', JStr (js ''x''))] =
         [(js ''name'', JStr (js ''x'')), (js ''clientNumber'', JNum 7)]"
  by (simp add: request_defs schema_defs sample_defs body_params_v2_def)

section \<open>Two corners of the path on the sample inputs\<close>

text \<open>
  An argument that is a lone surrogate passes \<^verbatim>\<open>z.string()\<close> and cannot be
  percent-encoded: the invocation ends in the \<^verbatim>\<open>catch\<close> block and no request is
  issued. The number \<^verbatim>\<open>1e21\<close> goes into the path in the exponent form the runtime
  writes it in.
\<close>

lemma lone_surrogate_example:
  "handler (js ''/items/{id}'') (js ''get'') get_item base organization (js ''getItem'')
       [(js ''id'', ZString [])] sample_runtime [(js ''id'', JStr [0xD800])] =
     \<lparr> result_text = js ''Error in getItem: URI malformed'', issued = [] \<rparr>"
proof -
  have high: "is_high_surrogate 0xD800"
    by (simp add: is_high_surrogate_def)
  then have plain: "\<not> uri_unreserved 0xD800"
    by (simp add: surrogate_not_unreserved)
  have differs: "[0xD800] \<noteq> guid_sentinel" "[0xD800] \<noteq> datetime_sentinel"
    by (simp_all add: guid_sentinel_def datetime_sentinel_def js_simps)
  have parsed: "z_object_parse sample_runtime [(js ''id'', ZString [])]
                  (resolve_placeholders sample_runtime [(js ''id'', JStr [0xD800])]) =
                Inr [(js ''id'', JStr [0xD800])]"
    by (simp add: z_object_parse_def object_issues_def object_output_def field_value_def
          obj_get_def obj_has_def resolve_placeholders_def resolve_placeholder_def differs)
  have path: "final_path sample_runtime (js ''/items/{id}'') [(js ''id'', JStr [0xD800])] =
                Inl uri_malformed"
    by (simp add: path_defs high plain js_simps)
  have rendered: "error_text sample_runtime (js ''getItem'') uri_malformed =
                js ''Error in getItem: URI malformed''"
    by (simp add: error_text_def message_def uri_malformed_def js_simps)
  show ?thesis
    by (simp only: handler_path_failure [OF parsed path] rendered)
qed

lemma large_number_example:
  "js_String sample_runtime (JNum 1000000000000000000000) = js ''1e+21''
   \<and> final_path sample_runtime (js ''/items/{id}'') [(js ''id'', JNum 1000000000000000000000)] =
       Inr (js ''/items/1e%2B21'')"
  by (simp add: path_defs encode_defs is_integer_def sample_runtime_def js_simps)

end
